theory Spec2Isabelle
  imports Complex_Main "HOL-Library.Log_Nat"
begin

section \<open>The ARIS risk engine of \<^verbatim>\<open>src/app.py\<close>\<close>

text \<open>
  The engine is the pair of functions \<^verbatim>\<open>calculate_aris_data\<close> (lines 28-102) and
  \<^verbatim>\<open>explain_risk\<close> (lines 133-266). Its numbers are Python floats, that is IEEE 754
  binary64 numbers, and Python integers. A float is modelled by the real number it
  stands for, or by one of the three special values; every operation rounds its exact
  result to the nearest binary64 number, a tie going to the even significand, and
  overflows to an infinity. The two zeros of binary64 are not told apart: the program
  never looks at the sign of a zero. Python integers are \<^typ>\<open>int\<close>.
\<close>

subsection \<open>Binary64 rounding\<close>

text \<open>The nearest integer, a tie going to the even neighbour.\<close>

definition nearest_even :: "real \<Rightarrow> int" where
  "nearest_even x =
     (let f = \<lfloor>x\<rfloor>; d = x - of_int f
      in if d < 1 / 2 then f
         else if 1 / 2 < d then f + 1
         else if even f then f else f + 1)"

text \<open>
  The binary exponent of a non-zero number: \<open>2 powi binade x \<le> \<bar>x\<bar> < 2 powi (binade x + 1)\<close>,
  computed from the bit length of an integer.
\<close>

definition binade :: "real \<Rightarrow> int" where
  "binade x =
     (let a = \<bar>x\<bar>
      in if 1 \<le> a then bitlen \<lfloor>a\<rfloor> - 1 else - bitlen (\<lceil>1 / a\<rceil> - 1))"

text \<open>
  The spacing of the binary64 numbers around \<open>x\<close>: 53 significant bits, and the
  spacing of the subnormal numbers below \<open>2 powi (- 1022)\<close>.
\<close>

definition quantum :: "real \<Rightarrow> real" where
  "quantum x = 2 powi (max (binade x) (- 1022) - 52)"

definition round_f64 :: "real \<Rightarrow> real" where
  "round_f64 x =
     (if x = 0 then 0 else of_int (nearest_even (x / quantum x)) * quantum x)"

datatype pyfloat = Fin real | PInf | NInf | NaN

text \<open>The float of an exact result: rounded, and infinite from \<open>2 ^ 1024\<close> on.\<close>

definition to_f64 :: "real \<Rightarrow> pyfloat" where
  "to_f64 x =
     (let r = round_f64 x
      in if 2 ^ 1024 \<le> r then PInf else if r \<le> - (2 ^ 1024) then NInf else Fin r)"

text \<open>
  A decimal literal of the source, such as \<^verbatim>\<open>0.3\<close>: the float nearest to the decimal.
  An integer literal next to a float, such as \<^verbatim>\<open>150\<close>, is converted exactly and is
  written \<open>Fin 150\<close>.
\<close>

definition lit :: "real \<Rightarrow> pyfloat" where
  "lit d = to_f64 d"

subsection \<open>Float arithmetic\<close>

fun fadd :: "pyfloat \<Rightarrow> pyfloat \<Rightarrow> pyfloat" where
  "fadd (Fin x) (Fin y) = to_f64 (x + y)"
| "fadd NaN b = NaN"
| "fadd a NaN = NaN"
| "fadd PInf NInf = NaN"
| "fadd NInf PInf = NaN"
| "fadd PInf b = PInf"
| "fadd a PInf = PInf"
| "fadd NInf b = NInf"
| "fadd a NInf = NInf"

fun fsub :: "pyfloat \<Rightarrow> pyfloat \<Rightarrow> pyfloat" where
  "fsub (Fin x) (Fin y) = to_f64 (x - y)"
| "fsub NaN b = NaN"
| "fsub a NaN = NaN"
| "fsub PInf PInf = NaN"
| "fsub NInf NInf = NaN"
| "fsub PInf b = PInf"
| "fsub a PInf = NInf"
| "fsub NInf b = NInf"
| "fsub a NInf = PInf"

definition signed_inf :: "bool \<Rightarrow> pyfloat" where
  "signed_inf negative = (if negative then NInf else PInf)"

fun fmul :: "pyfloat \<Rightarrow> pyfloat \<Rightarrow> pyfloat" where
  "fmul (Fin x) (Fin y) = to_f64 (x * y)"
| "fmul NaN b = NaN"
| "fmul a NaN = NaN"
| "fmul (Fin x) PInf = (if x = 0 then NaN else signed_inf (x < 0))"
| "fmul (Fin x) NInf = (if x = 0 then NaN else signed_inf (0 < x))"
| "fmul PInf (Fin y) = (if y = 0 then NaN else signed_inf (y < 0))"
| "fmul NInf (Fin y) = (if y = 0 then NaN else signed_inf (0 < y))"
| "fmul PInf PInf = PInf"
| "fmul PInf NInf = NInf"
| "fmul NInf PInf = NInf"
| "fmul NInf NInf = PInf"

text \<open>The quotient by a divisor that is not zero.\<close>

fun fdiv :: "pyfloat \<Rightarrow> pyfloat \<Rightarrow> pyfloat" where
  "fdiv (Fin x) (Fin y) = to_f64 (x / y)"
| "fdiv NaN b = NaN"
| "fdiv a NaN = NaN"
| "fdiv (Fin x) PInf = Fin 0"
| "fdiv (Fin x) NInf = Fin 0"
| "fdiv PInf (Fin y) = signed_inf (y < 0)"
| "fdiv NInf (Fin y) = signed_inf (0 < y)"
| "fdiv PInf PInf = NaN"
| "fdiv PInf NInf = NaN"
| "fdiv NInf PInf = NaN"
| "fdiv NInf NInf = NaN"

text \<open>\<^verbatim>\<open>a < b\<close>; \<^verbatim>\<open>a > b\<close> is \<open>flt b a\<close>. A comparison with NaN is false.\<close>

fun flt :: "pyfloat \<Rightarrow> pyfloat \<Rightarrow> bool" where
  "flt (Fin x) (Fin y) = (x < y)"
| "flt NaN b = False"
| "flt a NaN = False"
| "flt PInf b = False"
| "flt a NInf = False"
| "flt a PInf = True"
| "flt NInf b = True"

subsection \<open>Python primitives\<close>

datatype py_exception =
  ZeroDivisionError | OverflowError | ValueError | TypeError | PredictionError

text \<open>\<^verbatim>\<open>a / b\<close> on floats, with a divisor that is not a literal: raises on zero.\<close>

definition py_truediv :: "pyfloat \<Rightarrow> pyfloat \<Rightarrow> py_exception + pyfloat" where
  "py_truediv a b = (if b = Fin 0 then Inl ZeroDivisionError else Inr (fdiv a b))"

text \<open>
  \<^verbatim>\<open>round(x)\<close> with one argument: the nearest integer, a tie going to the even
  neighbour; an infinity raises \<^verbatim>\<open>OverflowError\<close>, NaN raises \<^verbatim>\<open>ValueError\<close>.
\<close>

fun py_round :: "pyfloat \<Rightarrow> py_exception + int" where
  "py_round (Fin x) = Inr (nearest_even x)"
| "py_round PInf = Inl OverflowError"
| "py_round NInf = Inl OverflowError"
| "py_round NaN = Inl ValueError"

text \<open>\<^verbatim>\<open>int(x)\<close> truncates towards zero, and raises as \<^verbatim>\<open>round\<close> does.\<close>

definition py_trunc :: "real \<Rightarrow> int" where
  "py_trunc x = (if 0 \<le> x then \<lfloor>x\<rfloor> else \<lceil>x\<rceil>)"

fun py_int :: "pyfloat \<Rightarrow> py_exception + int" where
  "py_int (Fin x) = Inr (py_trunc x)"
| "py_int PInf = Inl OverflowError"
| "py_int NInf = Inl OverflowError"
| "py_int NaN = Inl ValueError"

text \<open>An integer that meets a float is converted to a float first.\<close>

definition float_of_int :: "int \<Rightarrow> py_exception + pyfloat" where
  "float_of_int n = (case to_f64 (of_int n) of Fin x \<Rightarrow> Inr (Fin x) | _ \<Rightarrow> Inl OverflowError)"

text \<open>\<^verbatim>\<open>a / b\<close> on integers: the float nearest to the exact quotient.\<close>

definition int_truediv :: "int \<Rightarrow> int \<Rightarrow> py_exception + pyfloat" where
  "int_truediv a b =
     (if b = 0 then Inl ZeroDivisionError
      else (case to_f64 (of_int a / of_int b) of
              Fin x \<Rightarrow> Inr (Fin x)
            | _ \<Rightarrow> Inl OverflowError))"

subsection \<open>The classifier\<close>

text \<open>
  \<^verbatim>\<open>load_model\<close> (lines 13-22) returns the unpickled model or \<^verbatim>\<open>None\<close>. The model is
  used only through \<^verbatim>\<open>model.predict_proba(new_data)[0][1]\<close> on the one-row frame of
  \<^verbatim>\<open>[vibration, temp, corrosion_score, change_rate]\<close>: the call either raises or yields
  an object, which is a number or not.
\<close>

datatype py_object = Float pyfloat | NonNumber

type_synonym features = "pyfloat \<times> pyfloat \<times> pyfloat \<times> pyfloat"

type_synonym classifier = "features \<Rightarrow> py_exception + py_object"


fun fixed_classifier :: "real \<Rightarrow> classifier" where
  "fixed_classifier p row = Inr (Float (lit p))"

fun failing_classifier :: classifier where
  "failing_classifier row = Inl PredictionError"

subsection \<open>\<^verbatim>\<open>calculate_aris_data\<close>\<close>

text \<open>
  Line 42: \<^verbatim>\<open>round(failure_prob * 120)\<close>, outside the \<^verbatim>\<open>try\<close>. An object that is no
  number ends in \<^verbatim>\<open>TypeError\<close>.
\<close>

definition base_score :: "py_object \<Rightarrow> py_exception + int" where
  "base_score failure_prob =
     (case failure_prob of
        Float p \<Rightarrow> py_round (fmul p (Fin 120))
      | NonNumber \<Rightarrow> Inl TypeError)"

text \<open>
  Lines 47-74: \<^verbatim>\<open>extra_risk_points\<close> starts at 0 and is increased by one statement
  after the other; \<^verbatim>\<open>e1\<close> to \<^verbatim>\<open>e6\<close> are its successive values. The flow-rate statement
  is an \<^verbatim>\<open>if\<close>/\<^verbatim>\<open>elif\<close>. The integer 0 it starts from and the float 0.0 are the same
  number here.
\<close>

definition extra_risk_points ::
  "pyfloat \<Rightarrow> pyfloat \<Rightarrow> pyfloat \<Rightarrow> pyfloat \<Rightarrow> pyfloat \<Rightarrow> pyfloat \<Rightarrow> pyfloat" where
  "extra_risk_points temp_normalized vib_normalized flow_rate lube_health stress_in rul_in =
     (let e0 = Fin 0;
          e1 = (if flt (lit (3 / 10)) temp_normalized
                then fadd e0 (fmul (fsub temp_normalized (lit (3 / 10))) (Fin 150)) else e0);
          e2 = (if flt (lit (3 / 10)) vib_normalized
                then fadd e1 (fmul (fsub vib_normalized (lit (3 / 10))) (Fin 150)) else e1);
          e3 = (if flt flow_rate (lit (7 / 10))
                then fadd e2 (fmul (fsub (lit (7 / 10)) flow_rate) (Fin 50))
                else if flt (lit (11 / 10)) flow_rate
                then fadd e2 (fmul (fsub flow_rate (lit (11 / 10))) (Fin 75))
                else e2);
          e4 = (if flt lube_health (lit (4 / 10))
                then fadd e3 (fmul (fsub (lit (4 / 10)) lube_health) (Fin 100)) else e3);
          e5 = (if flt (lit (6 / 10)) stress_in
                then fadd e4 (fmul (fsub stress_in (lit (6 / 10))) (Fin 80)) else e4);
          e6 = (if flt rul_in (lit (3 / 10))
                then fadd e5 (fmul (fsub (lit (3 / 10)) rul_in) (Fin 120)) else e5)
      in e6)"

text \<open>
  Lines 78-79: \<^verbatim>\<open>int(min(100, risk_index + extra_risk_points))\<close>. \<^verbatim>\<open>min(100, s)\<close> is
  \<^verbatim>\<open>s\<close> when \<^verbatim>\<open>s < 100\<close> and the integer 100 otherwise.
\<close>

definition final_index :: "int \<Rightarrow> pyfloat \<Rightarrow> py_exception + int" where
  "final_index risk_index points =
     (case float_of_int risk_index of
        Inl e \<Rightarrow> Inl e
      | Inr b \<Rightarrow>
          (let s = fadd b points
           in if flt s (Fin 100) then py_int s else Inr 100))"

text \<open>
  Lines 81-88: the three influences and their total. The divisions are by the
  literals 0.9, 1.0 and 2 and cannot raise.
\<close>

definition corrosion_influence :: "pyfloat \<Rightarrow> pyfloat" where
  "corrosion_influence corrosion_score =
     (let corrosion_normalized = fdiv (fsub corrosion_score (lit (1 / 10))) (lit (9 / 10))
      in fmul (lit (45 / 100)) corrosion_normalized)"

definition rate_influence :: "pyfloat \<Rightarrow> pyfloat" where
  "rate_influence change_rate =
     (let rate_normalized = fdiv change_rate (Fin 1)
      in fmul (lit (40 / 100)) rate_normalized)"

definition temp_vib_influence :: "pyfloat \<Rightarrow> pyfloat \<Rightarrow> pyfloat" where
  "temp_vib_influence temp_normalized vib_normalized =
     fdiv (fmul (lit (15 / 100)) (fadd temp_normalized vib_normalized)) (Fin 2)"

definition total_dynamic_influence ::
  "pyfloat \<Rightarrow> pyfloat \<Rightarrow> pyfloat \<Rightarrow> pyfloat \<Rightarrow> pyfloat" where
  "total_dynamic_influence temp_normalized vib_normalized corrosion_score change_rate =
     fadd (fadd (corrosion_influence corrosion_score) (rate_influence change_rate))
       (temp_vib_influence temp_normalized vib_normalized)"

text \<open>
  Lines 90-100: the corrosion and rate shares, statement by statement; each division
  by a computed value and each \<^verbatim>\<open>round\<close> can raise.
\<close>

definition contribution_shares ::
  "pyfloat \<Rightarrow> pyfloat \<Rightarrow> pyfloat \<Rightarrow> pyfloat \<Rightarrow> py_exception + (int \<times> int)" where
  "contribution_shares temp_normalized vib_normalized corrosion_score change_rate =
     (let total = total_dynamic_influence temp_normalized vib_normalized
                    corrosion_score change_rate;
          first_shares =
            (if flt (lit (1 / 100)) total then
               (case py_truediv (corrosion_influence corrosion_score) total of
                  Inl e \<Rightarrow> Inl e
                | Inr qc \<Rightarrow>
                    (case py_round (fmul qc (Fin 100)) of
                       Inl e \<Rightarrow> Inl e
                     | Inr c \<Rightarrow>
                         (case py_truediv (rate_influence change_rate) total of
                            Inl e \<Rightarrow> Inl e
                          | Inr qr \<Rightarrow>
                              (case py_round (fmul qr (Fin 100)) of
                                 Inl e \<Rightarrow> Inl e
                               | Inr r \<Rightarrow> Inr (c, r)))))
             else Inr (45, 40))
      in case first_shares of
           Inl e \<Rightarrow> Inl e
         | Inr (corrosion_contribution, rate_contribution) \<Rightarrow>
             (let total_contribution = corrosion_contribution + rate_contribution
              in if 100 < total_contribution then
                   (case int_truediv (corrosion_contribution * 100) total_contribution of
                      Inl e \<Rightarrow> Inl e
                    | Inr sc \<Rightarrow>
                        (case py_round sc of
                           Inl e \<Rightarrow> Inl e
                         | Inr c \<Rightarrow>
                             (case int_truediv (rate_contribution * 100) total_contribution of
                                Inl e \<Rightarrow> Inl e
                              | Inr sr \<Rightarrow>
                                  (case py_round sr of
                                     Inl e \<Rightarrow> Inl e
                                   | Inr r \<Rightarrow> Inr (c, r)))))
                 else Inr (corrosion_contribution, rate_contribution)))"

text \<open>
  The whole function. \<^verbatim>\<open>model is None\<close> and an exception of the prediction call both
  return the plain tuple \<^verbatim>\<open>(0, 0, 0)\<close>; the \<^verbatim>\<open>try\<close> of lines 37-40 covers the prediction
  call only, and an exception raised anywhere else reaches the caller: it is the
  \<open>Inl\<close> of the result.
\<close>

definition calculate_aris_data ::
  "classifier option \<Rightarrow> pyfloat \<Rightarrow> pyfloat \<Rightarrow> pyfloat \<Rightarrow> pyfloat \<Rightarrow> pyfloat \<Rightarrow> pyfloat
     \<Rightarrow> pyfloat \<Rightarrow> pyfloat \<Rightarrow> py_exception + (int \<times> int \<times> int)" where
  "calculate_aris_data model vibration temp corrosion_score change_rate
       flow_rate lube_health stress_in rul_in =
     (case model of
        None \<Rightarrow> Inr (0, 0, 0)
      | Some clf \<Rightarrow>
          (case clf (vibration, temp, corrosion_score, change_rate) of
             Inl e \<Rightarrow> Inr (0, 0, 0)
           | Inr failure_prob \<Rightarrow>
               (case base_score failure_prob of
                  Inl e \<Rightarrow> Inl e
                | Inr risk_index0 \<Rightarrow>
                    (let temp_normalized = fdiv (fsub temp (Fin 30)) (Fin 55);
                         vib_normalized = fdiv (fsub vibration (Fin 1)) (Fin 24);
                         points = extra_risk_points temp_normalized vib_normalized
                                    flow_rate lube_health stress_in rul_in
                     in case final_index risk_index0 points of
                          Inl e \<Rightarrow> Inl e
                        | Inr risk_index \<Rightarrow>
                            (case contribution_shares temp_normalized vib_normalized
                                    corrosion_score change_rate of
                               Inl e \<Rightarrow> Inl e
                             | Inr (corrosion_contribution, rate_contribution) \<Rightarrow>
                                 Inr (risk_index, corrosion_contribution,
                                      rate_contribution))))))"

subsection \<open>\<^verbatim>\<open>explain_risk\<close>\<close>

text \<open>
  \<^verbatim>\<open>explain_risk\<close> writes its report to the page. The report is modelled by the values
  the function decides on; the Arabic texts are replaced by constructors. The tier
  labels of lines 147-150 and 203-220 read, in order: safe, low, medium, high, imminent
  failure.
\<close>

datatype tier = Safe | Low | Medium | High | ImminentFailure

text \<open>Lines 136-141: the pair \<^verbatim>\<open>dominant_factor\<close>, \<^verbatim>\<open>action_focus\<close> of the recommendation.\<close>

datatype focus = CorrosionAndMetalIntegrity | VibrationAndTemperature

definition dominant_factor :: "int \<Rightarrow> pyfloat \<Rightarrow> focus" where
  "dominant_factor corr_contrib vibration_in =
     (if 100 - corr_contrib < corr_contrib \<or> (50 < corr_contrib \<and> flt vibration_in (Fin 10))
      then CorrosionAndMetalIntegrity
      else VibrationAndTemperature)"

text \<open>Lines 147-150: the nested conditional expression.\<close>

definition delta_text :: "int \<Rightarrow> tier" where
  "delta_text risk_index =
     (if risk_index < 20 then Safe
      else (if risk_index < 35 then Low
            else (if risk_index < 50 then Medium
                  else (if risk_index < 80 then High else ImminentFailure))))"

text \<open>Lines 203-220: the \<^verbatim>\<open>if\<close>/\<^verbatim>\<open>elif\<close> chain that prints level and recommendation.\<close>

definition recommendation :: "int \<Rightarrow> tier" where
  "recommendation risk_index =
     (if risk_index < 20 then Safe
      else if 20 \<le> risk_index \<and> risk_index < 35 then Low
      else if 35 \<le> risk_index \<and> risk_index < 50 then Medium
      else if 50 \<le> risk_index \<and> risk_index < 80 then High
      else ImminentFailure)"

text \<open>Lines 226-227.\<close>

definition vib_temp_contrib :: "int \<Rightarrow> int \<Rightarrow> int" where
  "vib_temp_contrib corr_contrib rate_contrib =
     (let v = 100 - corr_contrib - rate_contrib in if v < 0 then 0 else v)"

text \<open>Lines 234-239: the main cause and the share printed with it.\<close>

datatype cause = Corrosion | Mechanical | RateOfDegradation

definition main_cause :: "int \<Rightarrow> int \<Rightarrow> cause \<times> int" where
  "main_cause corr_contrib rate_contrib =
     (let vt = vib_temp_contrib corr_contrib rate_contrib
      in if vt \<le> corr_contrib \<and> rate_contrib \<le> corr_contrib then (Corrosion, corr_contrib)
         else if corr_contrib \<le> vt \<and> rate_contrib \<le> vt then (Mechanical, vt)
         else (RateOfDegradation, rate_contrib))"

text \<open>
  Lines 247-257: the list \<^verbatim>\<open>messages\<close>; each message formats the value that
  triggered it, which is the argument of the constructor.
\<close>

datatype alert =
    LowFlowRate pyfloat
  | HighFlowRate pyfloat
  | LowLubeHealth pyfloat
  | HighStress pyfloat
  | LowRUL pyfloat

definition messages :: "pyfloat \<Rightarrow> pyfloat \<Rightarrow> pyfloat \<Rightarrow> pyfloat \<Rightarrow> alert list" where
  "messages flow_rate lube_health stress_in rul_in =
     (let m0 = [];
          m1 = (if flt flow_rate (lit (7 / 10)) then m0 @ [LowFlowRate flow_rate] else m0);
          m2 = (if flt (lit (11 / 10)) flow_rate then m1 @ [HighFlowRate flow_rate] else m1);
          m3 = (if flt lube_health (lit (4 / 10)) then m2 @ [LowLubeHealth lube_health] else m2);
          m4 = (if flt (lit (6 / 10)) stress_in then m3 @ [HighStress stress_in] else m3);
          m5 = (if flt rul_in (lit (3 / 10)) then m4 @ [LowRUL rul_in] else m4)
      in m5)"

text \<open>
  Lines 259-263: a non-empty list is printed item by item, an empty one is replaced
  by the note that the additional factors raise no critical remark.
\<close>

datatype sub_causes = Items "alert list" | NoCriticalNotes

definition show_messages :: "alert list \<Rightarrow> sub_causes" where
  "show_messages ms = (if ms \<noteq> [] then Items ms else NoCriticalNotes)"

record report =
  rep_focus :: focus
  rep_delta_text :: tier
  rep_recommendation :: tier
  rep_main_cause :: "cause \<times> int"
  rep_sub_causes :: sub_causes

text \<open>The argument \<^verbatim>\<open>asset_id\<close> only fills the heading and is left out.\<close>

definition explain_risk ::
  "int \<Rightarrow> int \<Rightarrow> int \<Rightarrow> pyfloat \<Rightarrow> pyfloat \<Rightarrow> pyfloat \<Rightarrow> pyfloat \<Rightarrow> pyfloat \<Rightarrow> report" where
  "explain_risk risk_index corr_contrib rate_contrib vibration_in
       flow_rate lube_health stress_in rul_in =
     \<lparr> rep_focus = dominant_factor corr_contrib vibration_in,
       rep_delta_text = delta_text risk_index,
       rep_recommendation = recommendation risk_index,
       rep_main_cause = main_cause corr_contrib rate_contrib,
       rep_sub_causes = show_messages (messages flow_rate lube_health stress_in rul_in) \<rparr>"

subsection \<open>Floats and ranges\<close>

text \<open>
  The binary64 numbers among the reals, the float values, and the smallest positive
  binary64 number.
\<close>

definition smallest_positive :: real where
  "smallest_positive = 2 powi (- 1074)"

definition representable :: "real \<Rightarrow> bool" where
  "representable x = (round_f64 x = x \<and> \<bar>x\<bar> < 2 ^ 1024)"

definition is_f64 :: "pyfloat \<Rightarrow> bool" where
  "is_f64 v = (case v of Fin x \<Rightarrow> representable x | _ \<Rightarrow> True)"

text \<open>
  The ranges of the eight readings, as the sliders of lines 309-334 bound them. For the
  corrosion score, the change rate, the flow rate, the lubrication health, the stress
  and the remaining life they are the ranges the specification documents; for the
  vibration and the temperature, whose ranges the specification leaves to the sliders,
  they are 1 to 25 and 30 to 85. The lower end of the corrosion score is the float
  \<^verbatim>\<open>0.1\<close>.
\<close>

definition in_range :: "real \<Rightarrow> real \<Rightarrow> pyfloat \<Rightarrow> bool" where
  "in_range lo hi v = (case v of Fin x \<Rightarrow> lo \<le> x \<and> x \<le> hi | _ \<Rightarrow> False)"

definition valid_reading ::
  "pyfloat \<Rightarrow> pyfloat \<Rightarrow> pyfloat \<Rightarrow> pyfloat \<Rightarrow> pyfloat \<Rightarrow> pyfloat \<Rightarrow> pyfloat \<Rightarrow> pyfloat \<Rightarrow> bool" where
  "valid_reading vibration temp corrosion_score change_rate
       flow_rate lube_health stress_in rul_in =
     (in_range 1 25 vibration \<and>
      in_range 30 85 temp \<and>
      in_range (round_f64 (1 / 10)) 1 corrosion_score \<and>
      in_range 0 1 change_rate \<and>
      in_range (1 / 2) (3 / 2) flow_rate \<and>
      in_range 0 1 lube_health \<and>
      in_range 0 1 stress_in \<and>
      in_range 0 1 rul_in)"

text \<open>
  A model that is missing, or whose prediction raises, or answers a finite float of
  magnitude at most \<open>2 ^ 1000\<close>; every probability is such an answer.
\<close>

definition answers_within :: "classifier option \<Rightarrow> features \<Rightarrow> bool" where
  "answers_within model row =
     (case model of
        None \<Rightarrow> True
      | Some clf \<Rightarrow>
          (case clf row of
             Inl e \<Rightarrow> True
           | Inr (Float (Fin p)) \<Rightarrow> \<bar>p\<bar> \<le> 2 ^ 1000
           | Inr other \<Rightarrow> False))"


section \<open>The specification's wording\<close>









text \<open>
  The Contribution Attributor as the specification words it: round each influence
  ratio to a percentage, then rescale the two percentages when they add up to more
  than 100; the fixed defaults when the total influence is at most 0.01.
\<close>

definition ratio_percent_spec :: "pyfloat \<Rightarrow> pyfloat \<Rightarrow> py_exception + int" where
  "ratio_percent_spec influence total_influence =
     (case py_truediv influence total_influence of
        Inl e \<Rightarrow> Inl e
      | Inr q \<Rightarrow> py_round (fmul q (Fin 100)))"

definition rescale_percent_spec :: "int \<Rightarrow> int \<Rightarrow> py_exception + int" where
  "rescale_percent_spec share sum_of_shares =
     (case int_truediv (share * 100) sum_of_shares of
        Inl e \<Rightarrow> Inl e
      | Inr q \<Rightarrow> py_round q)"

definition both :: "py_exception + int \<Rightarrow> py_exception + int \<Rightarrow> py_exception + (int \<times> int)" where
  "both a b =
     (case a of
        Inl e \<Rightarrow> Inl e
      | Inr x \<Rightarrow> (case b of Inl e \<Rightarrow> Inl e | Inr y \<Rightarrow> Inr (x, y)))"

definition rounded_shares_spec ::
  "pyfloat \<Rightarrow> pyfloat \<Rightarrow> pyfloat \<Rightarrow> pyfloat \<Rightarrow> py_exception + (int \<times> int)" where
  "rounded_shares_spec temp_normalized vib_normalized corrosion_score change_rate =
     (let total_influence = total_dynamic_influence temp_normalized vib_normalized
                    corrosion_score change_rate
      in if flt (lit (1 / 100)) total_influence
         then both (ratio_percent_spec (corrosion_influence corrosion_score) total_influence)
                   (ratio_percent_spec (rate_influence change_rate) total_influence)
         else Inr (45, 40))"

definition rescaled_spec :: "int \<times> int \<Rightarrow> py_exception + (int \<times> int)" where
  "rescaled_spec shares =
     (let c = fst shares; r = snd shares
      in if 100 < c + r
         then both (rescale_percent_spec c (c + r)) (rescale_percent_spec r (c + r))
         else Inr (c, r))"

definition shares_spec ::
  "pyfloat \<Rightarrow> pyfloat \<Rightarrow> pyfloat \<Rightarrow> pyfloat \<Rightarrow> py_exception + (int \<times> int)" where
  "shares_spec temp_normalized vib_normalized corrosion_score change_rate =
     (case rounded_shares_spec temp_normalized vib_normalized corrosion_score change_rate of
        Inl e \<Rightarrow> Inl e
      | Inr shares \<Rightarrow> rescaled_spec shares)"

text \<open>
  The points when the term of a factor is added exactly when the alert of the factor
  is listed by \<^verbatim>\<open>explain_risk\<close>.
\<close>

definition points_by_alerts ::
  "pyfloat \<Rightarrow> pyfloat \<Rightarrow> pyfloat \<Rightarrow> pyfloat \<Rightarrow> pyfloat \<Rightarrow> pyfloat \<Rightarrow> pyfloat" where
  "points_by_alerts temp_normalized vib_normalized flow_rate lube_health stress_in rul_in =
     (let alerts = set (messages flow_rate lube_health stress_in rul_in);
          e0 = Fin 0;
          e1 = (if flt (lit (3 / 10)) temp_normalized
                then fadd e0 (fmul (fsub temp_normalized (lit (3 / 10))) (Fin 150)) else e0);
          e2 = (if flt (lit (3 / 10)) vib_normalized
                then fadd e1 (fmul (fsub vib_normalized (lit (3 / 10))) (Fin 150)) else e1);
          e3 = (if LowFlowRate flow_rate \<in> alerts
                then fadd e2 (fmul (fsub (lit (7 / 10)) flow_rate) (Fin 50))
                else if HighFlowRate flow_rate \<in> alerts
                then fadd e2 (fmul (fsub flow_rate (lit (11 / 10))) (Fin 75))
                else e2);
          e4 = (if LowLubeHealth lube_health \<in> alerts
                then fadd e3 (fmul (fsub (lit (4 / 10)) lube_health) (Fin 100)) else e3);
          e5 = (if HighStress stress_in \<in> alerts
                then fadd e4 (fmul (fsub stress_in (lit (6 / 10))) (Fin 80)) else e4);
          e6 = (if LowRUL rul_in \<in> alerts
                then fadd e5 (fmul (fsub (lit (3 / 10)) rul_in) (Fin 120)) else e5)
      in e6)"

section \<open>Properties of the model\<close>

text \<open>
  The rounding is exact on the binary64 numbers, monotone and sign-preserving; from
  these facts follow the bounds on the results of \<^verbatim>\<open>calculate_aris_data\<close> for the
  readings inside their ranges.
\<close>

subsection \<open>The nearest integer\<close>

lemma nearest_even_eqI:
  assumes "\<bar>x - of_int n\<bar> < 1 / 2 \<or> (\<bar>x - of_int n\<bar> = 1 / 2 \<and> even n)"
  shows "nearest_even x = n"
proof -
  consider (a) "of_int n \<le> x" "x - of_int n < 1 / 2"
    | (b) "x < of_int n" "of_int n - x < 1 / 2"
    | (c) "x - of_int n = 1 / 2" "even n"
    | (d) "of_int n - x = 1 / 2" "even n"
    using assms by (auto simp: abs_if split: if_splits)
  then show ?thesis
  proof cases
    case a
    then have "\<lfloor>x\<rfloor> = n" by linarith
    with a show ?thesis by (simp add: nearest_even_def Let_def)
  next
    case b
    then have f: "\<lfloor>x\<rfloor> = n - 1" by linarith
    have "1 / 2 < x - of_int (n - 1)" using b by simp
    with f show ?thesis by (simp add: nearest_even_def Let_def)
  next
    case c
    then have f: "\<lfloor>x\<rfloor> = n" by linarith
    with c show ?thesis by (simp add: nearest_even_def Let_def)
  next
    case d
    then have f: "\<lfloor>x\<rfloor> = n - 1" by linarith
    have "x - of_int (n - 1) = 1 / 2" using d by simp
    with f d(2) show ?thesis by (simp add: nearest_even_def Let_def)
  qed
qed

lemma nearest_even_props:
  "\<bar>x - of_int (nearest_even x)\<bar> < 1 / 2 \<or>
   (\<bar>x - of_int (nearest_even x)\<bar> = 1 / 2 \<and> even (nearest_even x))"
proof -
  consider "x - of_int \<lfloor>x\<rfloor> < 1 / 2" | "1 / 2 < x - of_int \<lfloor>x\<rfloor>" | "x - of_int \<lfloor>x\<rfloor> = 1 / 2"
    by linarith
  then show ?thesis
  proof cases
    case 1
    then have "nearest_even x = \<lfloor>x\<rfloor>" by (simp add: nearest_even_def Let_def)
    moreover have "0 \<le> x - of_int \<lfloor>x\<rfloor>" by linarith
    ultimately show ?thesis using 1 by simp
  next
    case 2
    then have n: "nearest_even x = \<lfloor>x\<rfloor> + 1" by (simp add: nearest_even_def Let_def)
    have "x - of_int \<lfloor>x\<rfloor> < 1" by linarith
    then have "\<bar>x - of_int (\<lfloor>x\<rfloor> + 1)\<bar> < 1 / 2" using 2 by (simp add: abs_if)
    then show ?thesis using n by simp
  next
    case 3
    show ?thesis
    proof (cases "even \<lfloor>x\<rfloor>")
      case True
      then have "nearest_even x = \<lfloor>x\<rfloor>" using 3 by (simp add: nearest_even_def Let_def)
      then show ?thesis using 3 True by simp
    next
      case False
      then have n: "nearest_even x = \<lfloor>x\<rfloor> + 1" using 3 by (simp add: nearest_even_def Let_def)
      have "\<bar>x - of_int (\<lfloor>x\<rfloor> + 1)\<bar> = 1 / 2" using 3 by (simp add: abs_if)
      then show ?thesis using n False by simp
    qed
  qed
qed

lemma nearest_even_of_int [simp]: "nearest_even (of_int n) = n"
  by (rule nearest_even_eqI) simp

lemma nearest_even_minus: "nearest_even (- x) = - nearest_even x"
proof (rule nearest_even_eqI)
  have "\<bar>- x - of_int (- nearest_even x)\<bar> = \<bar>x - of_int (nearest_even x)\<bar>"
    by (simp add: abs_if)
  then show "\<bar>- x - of_int (- nearest_even x)\<bar> < 1 / 2 \<or>
    (\<bar>- x - of_int (- nearest_even x)\<bar> = 1 / 2 \<and> even (- nearest_even x))"
    using nearest_even_props [of x] by simp
qed

lemma nearest_even_mono:
  assumes "x \<le> y"
  shows "nearest_even x \<le> nearest_even y"
proof (rule ccontr)
  assume "\<not> nearest_even x \<le> nearest_even y"
  then have gt: "nearest_even y + 1 \<le> nearest_even x" by simp
  define a where "a = nearest_even x"
  define b where "b = nearest_even y"
  have px: "\<bar>x - of_int a\<bar> < 1 / 2 \<or> (\<bar>x - of_int a\<bar> = 1 / 2 \<and> even a)"
    unfolding a_def by (rule nearest_even_props)
  have py: "\<bar>y - of_int b\<bar> < 1 / 2 \<or> (\<bar>y - of_int b\<bar> = 1 / 2 \<and> even b)"
    unfolding b_def by (rule nearest_even_props)
  have ab: "b + 1 \<le> a" using gt by (simp add: a_def b_def)
  then have abr: "real_of_int b + 1 \<le> real_of_int a" by linarith
  have x1: "real_of_int a - 1 / 2 \<le> x" using px by (auto simp: abs_if split: if_splits)
  have y1: "y \<le> real_of_int b + 1 / 2" using py by (auto simp: abs_if split: if_splits)
  have eq: "real_of_int a = real_of_int b + 1" "x = real_of_int a - 1 / 2"
    "y = real_of_int b + 1 / 2"
    using x1 y1 abr assms by linarith+
  then have "a = b + 1" by linarith
  moreover have "even a" using px eq(2) by (auto simp: abs_if)
  moreover have "even b" using py eq(3) by (auto simp: abs_if)
  ultimately show False by simp
qed

lemma nearest_even_nonneg: "0 \<le> x \<Longrightarrow> 0 \<le> nearest_even x"
  using nearest_even_mono [of 0 x] nearest_even_of_int [of 0] by simp

lemma nearest_even_le: "x \<le> of_int n \<Longrightarrow> nearest_even x \<le> n"
  using nearest_even_mono [of x "of_int n"] by simp

lemma nearest_even_ge: "of_int n \<le> x \<Longrightarrow> n \<le> nearest_even x"
  using nearest_even_mono [of "of_int n" x] by simp

subsection \<open>The binary exponent\<close>

lemma two_powi_pos [simp]: "0 < (2::real) powi e"
  by (simp add: power_int_def)

lemma two_powi_mono: "a \<le> b \<Longrightarrow> (2::real) powi a \<le> 2 powi b"
  by (rule power_int_increasing) simp_all

lemma two_powi_strict_mono: "a < b \<Longrightarrow> (2::real) powi a < 2 powi b"
  by (rule power_int_strict_increasing) simp_all

lemma two_powi_less_cancel: "(2::real) powi a < 2 powi b \<Longrightarrow> a < b"
  using two_powi_mono [of b a] by (cases "a < b") auto

lemma two_powi_Suc: "(2::real) powi (e + 1) = 2 * 2 powi e"
  by (simp add: power_int_add)

lemma binade_bounds:
  assumes "x \<noteq> 0"
  shows "2 powi binade x \<le> \<bar>x\<bar> \<and> \<bar>x\<bar> < 2 powi (binade x + 1)"
proof (cases "1 \<le> \<bar>x\<bar>")
  case True
  define n where "n = \<lfloor>\<bar>x\<bar>\<rfloor>"
  have n1: "1 \<le> n" using True by (simp add: n_def le_floor_iff)
  then have npos: "0 < n" by simp
  have b: "binade x = bitlen n - 1" using True by (simp add: binade_def n_def Let_def)
  have bl: "1 \<le> bitlen n" using npos bitlen_eq_zero_iff [of n] bitlen_nonneg [of n] by linarith
  from bitlen_bounds [OF npos]
  have lo: "2 ^ nat (bitlen n - 1) \<le> n" and hi: "n < 2 ^ nat (bitlen n)" by simp_all
  have p1: "(2::real) powi binade x = 2 ^ nat (bitlen n - 1)"
    using bl by (simp add: b power_int_def)
  have p2: "(2::real) powi (binade x + 1) = 2 ^ nat (bitlen n)"
    using bl by (simp add: b power_int_def)
  have "real_of_int (2 ^ nat (bitlen n - 1)) \<le> real_of_int n" using lo by linarith
  then have "(2::real) ^ nat (bitlen n - 1) \<le> real_of_int n" by simp
  moreover have "real_of_int n \<le> \<bar>x\<bar>" by (simp add: n_def)
  ultimately have A: "2 powi binade x \<le> \<bar>x\<bar>" using p1 by linarith
  have "n + 1 \<le> 2 ^ nat (bitlen n)" using hi by simp
  then have "real_of_int (n + 1) \<le> real_of_int (2 ^ nat (bitlen n))" by linarith
  then have "real_of_int n + 1 \<le> 2 ^ nat (bitlen n)" by simp
  moreover have "\<bar>x\<bar> < real_of_int n + 1" by (simp add: n_def)
  ultimately have B: "\<bar>x\<bar> < 2 powi (binade x + 1)" using p2 by linarith
  show ?thesis using A B by simp
next
  case False
  define a where "a = \<bar>x\<bar>"
  have a0: "0 < a" and a1: "a < 1" using assms False by (simp_all add: a_def)
  define y where "y = 1 / a"
  have y1: "1 < y" using a0 a1 by (simp add: y_def)
  define m where "m = \<lceil>y\<rceil> - 1"
  have "2 \<le> \<lceil>y\<rceil>" using y1 by linarith
  then have mpos: "0 < m" by (simp add: m_def)
  define b where "b = bitlen m"
  have bl: "1 \<le> b" using mpos bitlen_eq_zero_iff [of m] bitlen_nonneg [of m]
    unfolding b_def by linarith
  have bin: "binade x = - b" using False by (simp add: binade_def Let_def b_def m_def y_def a_def)
  from bitlen_bounds [OF mpos]
  have lo: "2 ^ nat (b - 1) \<le> m" and hi: "m < 2 ^ nat b" by (simp_all add: b_def)
  have "m + 1 \<le> 2 ^ nat b" using hi by simp
  then have "real_of_int (m + 1) \<le> real_of_int (2 ^ nat b)" by linarith
  then have "real_of_int m + 1 \<le> 2 ^ nat b" by simp
  moreover have "y \<le> real_of_int m + 1" by (simp add: m_def)
  ultimately have yle: "y \<le> 2 ^ nat b" by linarith
  have "real_of_int (2 ^ nat (b - 1)) \<le> real_of_int m" using lo by linarith
  then have "(2::real) ^ nat (b - 1) \<le> real_of_int m" by simp
  moreover have "real_of_int m < y" unfolding m_def by linarith
  ultimately have ygt: "2 ^ nat (b - 1) < y" by linarith
  have p1: "(2::real) powi (- b) = 1 / 2 ^ nat b"
    using bl by (simp add: power_int_def field_simps)
  have p2: "(2::real) powi (- b + 1) = 1 / 2 ^ nat (b - 1)"
  proof -
    have "- b + 1 = - (b - 1)" by simp
    moreover have "0 \<le> b - 1" using bl by simp
    ultimately show ?thesis by (simp add: power_int_minus power_int_def field_simps)
  qed
  have A: "1 / 2 ^ nat b \<le> a"
  proof -
    have "1 / a \<le> 2 ^ nat b" using yle by (simp add: y_def)
    then have "1 \<le> 2 ^ nat b * a" using a0 by (simp add: field_simps)
    then show ?thesis by (simp add: field_simps)
  qed
  have B: "a < 1 / 2 ^ nat (b - 1)"
  proof -
    have "2 ^ nat (b - 1) < 1 / a" using ygt by (simp add: y_def)
    then have "2 ^ nat (b - 1) * a < 1" using a0 by (simp add: field_simps)
    then show ?thesis by (simp add: field_simps)
  qed
  show ?thesis using A B unfolding bin p1 p2 a_def by simp
qed

lemma binade_eqI:
  assumes "2 powi e \<le> \<bar>x\<bar>" and "\<bar>x\<bar> < 2 powi (e + 1)"
  shows "binade x = e"
proof -
  have "x \<noteq> 0"
  proof
    assume "x = 0"
    then have "(2::real) powi e \<le> 0" using assms(1) by simp
    then show False using two_powi_pos [of e] by linarith
  qed
  from binade_bounds [OF this]
  have lo: "2 powi binade x \<le> \<bar>x\<bar>" and hi: "\<bar>x\<bar> < 2 powi (binade x + 1)" by simp_all
  have "(2::real) powi e < 2 powi (binade x + 1)" using assms(1) hi by linarith
  then have 1: "e < binade x + 1" by (rule two_powi_less_cancel)
  have "(2::real) powi binade x < 2 powi (e + 1)" using lo assms(2) by linarith
  then have 2: "binade x < e + 1" by (rule two_powi_less_cancel)
  show ?thesis using 1 2 by simp
qed

lemma binade_minus [simp]: "binade (- x) = binade x"
  by (simp add: binade_def)

lemma binade_mono:
  assumes "0 < x" and "x \<le> y"
  shows "binade x \<le> binade y"
proof -
  have "2 powi binade x \<le> \<bar>x\<bar>" using binade_bounds [of x] assms by simp
  moreover have "\<bar>y\<bar> < 2 powi (binade y + 1)" using binade_bounds [of y] assms by simp
  ultimately have "(2::real) powi binade x < 2 powi (binade y + 1)" using assms by simp
  then have "binade x < binade y + 1" by (rule two_powi_less_cancel)
  then show ?thesis by simp
qed

subsection \<open>Rounding to binary64\<close>

lemma two_powi_le_cancel: "(2::real) powi a \<le> 2 powi b \<Longrightarrow> a \<le> b"
  using two_powi_strict_mono [of b a] by (cases "a \<le> b") auto

lemma quantum_pos [simp]: "0 < quantum x"
  by (simp add: quantum_def)

lemma quantum_minus [simp]: "quantum (- x) = quantum x"
  by (simp add: quantum_def)

lemma quantum_nonzero [simp]: "quantum x \<noteq> 0"
  using quantum_pos [of x] by linarith

lemma quantum_nonneg [simp]: "0 \<le> quantum x"
  using quantum_pos [of x] by linarith

lemma round_f64_zero [simp]: "round_f64 0 = 0"
  by (simp add: round_f64_def)

lemma round_f64_minus: "round_f64 (- x) = - round_f64 x"
  by (simp add: round_f64_def nearest_even_minus)

lemma round_f64_nonneg:
  assumes "0 \<le> x"
  shows "0 \<le> round_f64 x"
proof (cases "x = 0")
  case True
  then show ?thesis by simp
next
  case False
  have "0 \<le> x / quantum x" using assms by simp
  then have "0 \<le> nearest_even (x / quantum x)" by (rule nearest_even_nonneg)
  then have "0 \<le> real_of_int (nearest_even (x / quantum x)) * quantum x" by simp
  then show ?thesis using False by (simp add: round_f64_def)
qed

lemma quantum_times_2_53: "quantum x * 2 ^ 53 = 2 powi (max (binade x) (- 1022) + 1)"
proof -
  have "(2::real) powi (max (binade x) (- 1022) + 1)
      = 2 powi ((max (binade x) (- 1022) - 52) + 53)"
    by (rule arg_cong [where f = "\<lambda>n. 2 powi n"]) simp
  also have "\<dots> = 2 powi (max (binade x) (- 1022) - 52) * 2 powi 53"
    by (rule power_int_add) simp
  finally show ?thesis by (simp add: quantum_def)
qed

lemma quantum_times_2_52: "quantum x * 2 ^ 52 = 2 powi (max (binade x) (- 1022))"
proof -
  have "(2::real) powi (max (binade x) (- 1022))
      = 2 powi ((max (binade x) (- 1022) - 52) + 52)"
    by (rule arg_cong [where f = "\<lambda>n. 2 powi n"]) simp
  also have "\<dots> = 2 powi (max (binade x) (- 1022) - 52) * 2 powi 52"
    by (rule power_int_add) simp
  finally show ?thesis by (simp add: quantum_def)
qed

lemma scaled_less:
  assumes "x \<noteq> 0"
  shows "\<bar>x\<bar> / quantum x < 2 ^ 53"
proof -
  have "\<bar>x\<bar> < 2 powi (binade x + 1)" using binade_bounds [OF assms] by simp
  also have "\<dots> \<le> 2 powi (max (binade x) (- 1022) + 1)" by (rule two_powi_mono) simp
  also have "\<dots> = quantum x * 2 ^ 53" using quantum_times_2_53 [of x] by simp
  finally have "\<bar>x\<bar> < quantum x * 2 ^ 53" .
  then show ?thesis using quantum_pos [of x] by (simp add: field_simps)
qed

lemma scaled_ge:
  assumes "x \<noteq> 0" and "- 1022 \<le> binade x"
  shows "2 ^ 52 \<le> \<bar>x\<bar> / quantum x"
proof -
  have "quantum x * 2 ^ 52 = 2 powi (max (binade x) (- 1022))" by (rule quantum_times_2_52)
  also have "\<dots> = 2 powi binade x" using assms(2) by (simp add: max_def)
  also have "\<dots> \<le> \<bar>x\<bar>" using binade_bounds [OF assms(1)] by simp
  finally have "quantum x * 2 ^ 52 \<le> \<bar>x\<bar>" .
  then show ?thesis using quantum_pos [of x] by (simp add: field_simps)
qed

lemma round_f64_exactI:
  assumes "x / quantum x = of_int m"
  shows "round_f64 x = x"
proof (cases "x = 0")
  case True
  then show ?thesis by simp
next
  case False
  have "round_f64 x = of_int (nearest_even (of_int m)) * quantum x"
    using False assms by (simp add: round_f64_def)
  also have "\<dots> = (x / quantum x) * quantum x" using assms by simp
  also have "\<dots> = x" by simp
  finally show ?thesis .
qed

lemma round_f64_exact:
  assumes "\<bar>k\<bar> \<le> 2 ^ 53" and "- 1074 \<le> j"
  shows "round_f64 (of_int k * 2 powi j) = of_int k * 2 powi j"
proof (cases "k = 0")
  case True
  then show ?thesis by simp
next
  case False
  define x where "x = real_of_int k * 2 powi j"
  define E where "E = max (binade x) (- 1022)"
  have x0: "x \<noteq> 0" using False by (simp add: x_def)
  have q: "quantum x = 2 powi (E - 52)" by (simp add: quantum_def E_def)
  have absx: "\<bar>x\<bar> = real_of_int \<bar>k\<bar> * 2 powi j" by (simp add: x_def abs_mult)
  have "real_of_int \<bar>k\<bar> \<le> real_of_int (2 ^ 53)" using assms(1) by linarith
  then have kle: "real_of_int \<bar>k\<bar> \<le> 2 ^ 53" by simp
  have "\<bar>x\<bar> \<le> 2 ^ 53 * 2 powi j" unfolding absx using kle by (simp add: mult_right_mono)
  also have "\<dots> = 2 powi (53 + j)"
  proof -
    have "(2::real) powi (53 + j) = 2 powi 53 * 2 powi j" by (rule power_int_add) simp
    then show ?thesis by simp
  qed
  finally have xle: "\<bar>x\<bar> \<le> 2 powi (53 + j)" .
  have "2 powi binade x \<le> \<bar>x\<bar>" using binade_bounds [OF x0] by simp
  then have "(2::real) powi binade x \<le> 2 powi (53 + j)" using xle by linarith
  then have ble: "binade x \<le> 53 + j" by (rule two_powi_le_cancel)
  have "\<exists>m. x / quantum x = of_int m"
  proof (cases "binade x = 53 + j")
    case True
    then have E: "E = 53 + j" using assms(2) by (simp add: E_def max_def)
    have "2 powi (53 + j) \<le> \<bar>x\<bar>" using binade_bounds [OF x0] True by simp
    then have "\<bar>x\<bar> = 2 powi (53 + j)" using xle by linarith
    then have "real_of_int \<bar>k\<bar> * 2 powi j = 2 ^ 53 * 2 powi j"
      using absx \<open>2 ^ 53 * 2 powi j = 2 powi (53 + j)\<close> by simp
    then have "real_of_int \<bar>k\<bar> = 2 ^ 53" by simp
    then have "real_of_int \<bar>k\<bar> = real_of_int (2 ^ 53)" by simp
    then have ak: "\<bar>k\<bar> = 2 ^ 53" by linarith
    then have "k = 2 ^ 53 \<or> k = - (2 ^ 53)" by linarith
    then have ev: "even k" by auto
    have qq: "quantum x = 2 * 2 powi j"
    proof -
      have "(2::real) powi (E - 52) = 2 powi (j + 1)"
        using E by (intro arg_cong [where f = "\<lambda>n. 2 powi n"]) simp
      then show ?thesis unfolding q by (simp only: two_powi_Suc)
    qed
    have "x / quantum x = x / (2 * 2 powi j)" by (simp only: qq)
    also have "\<dots> = real_of_int k / 2" by (simp add: x_def)
    also have "\<dots> = real_of_int (k div 2)" using ev by (simp add: real_of_int_div)
    finally show ?thesis by blast
  next
    case False
    then have b52: "binade x \<le> 52 + j" using ble by simp
    then have d0: "0 \<le> j + 52 - E" using assms(2) by (simp add: E_def max_def)
    have "(2::real) powi j = 2 powi ((j + 52 - E) + (E - 52))" by simp
    also have "\<dots> = 2 powi (j + 52 - E) * 2 powi (E - 52)" by (rule power_int_add) simp
    finally have "(2::real) powi j / 2 powi (E - 52) = 2 powi (j + 52 - E)" by simp
    then have "(2::real) powi j / quantum x = 2 powi (j + 52 - E)" by (simp only: q)
    also have "\<dots> = 2 ^ nat (j + 52 - E)" using d0 by (simp add: power_int_def)
    finally have "(2::real) powi j / quantum x = 2 ^ nat (j + 52 - E)" .
    moreover have "x / quantum x = real_of_int k * ((2::real) powi j / quantum x)"
      by (simp add: x_def)
    ultimately have "x / quantum x = real_of_int k * 2 ^ nat (j + 52 - E)" by simp
    also have "\<dots> = real_of_int (k * 2 ^ nat (j + 52 - E))" by simp
    finally show ?thesis by blast
  qed
  then obtain m where "x / quantum x = of_int m" by blast
  then have "round_f64 x = x" by (rule round_f64_exactI)
  then show ?thesis by (simp add: x_def)
qed

lemma round_f64_of_int: "\<bar>k\<bar> \<le> 2 ^ 53 \<Longrightarrow> round_f64 (of_int k) = of_int k"
  using round_f64_exact [of k 0] by simp

lemma round_f64_form:
  "\<exists>k j. \<bar>k\<bar> \<le> 2 ^ 53 \<and> - 1074 \<le> j \<and> round_f64 x = of_int k * 2 powi j"
proof (cases "x = 0")
  case True
  have "\<bar>0::int\<bar> \<le> 2 ^ 53 \<and> - 1074 \<le> (0::int) \<and> round_f64 x = of_int 0 * 2 powi 0"
    using True by simp
  then show ?thesis by blast
next
  case False
  define k where "k = nearest_even (x / quantum x)"
  define j where "j = max (binade x) (- 1022) - 52"
  have r: "round_f64 x = of_int k * 2 powi j"
    using False by (simp add: round_f64_def k_def j_def quantum_def)
  have j: "- 1074 \<le> j" by (simp add: j_def)
  have "\<bar>x / quantum x\<bar> = \<bar>x\<bar> / quantum x" by (simp add: abs_divide)
  then have "\<bar>x / quantum x\<bar> < 2 ^ 53" using scaled_less [OF False] by simp
  then have up: "x / quantum x \<le> real_of_int (2 ^ 53)"
    and lo: "real_of_int (- (2 ^ 53)) \<le> x / quantum x" by (simp_all add: abs_if split: if_splits)
  have "k \<le> 2 ^ 53" unfolding k_def using up by (rule nearest_even_le)
  moreover have "- (2 ^ 53) \<le> k" unfolding k_def using lo by (rule nearest_even_ge)
  ultimately have "\<bar>k\<bar> \<le> 2 ^ 53" by simp
  with j r show ?thesis by blast
qed

lemma round_f64_idem [simp]: "round_f64 (round_f64 x) = round_f64 x"
proof -
  obtain k j where "\<bar>k\<bar> \<le> 2 ^ 53" "- 1074 \<le> j" "round_f64 x = of_int k * 2 powi j"
    using round_f64_form by blast
  then show ?thesis using round_f64_exact [of k j] by simp
qed

lemma round_f64_mono_pos:
  assumes "0 < x" and "x \<le> y"
  shows "round_f64 x \<le> round_f64 y"
proof -
  define Ex where "Ex = max (binade x) (- 1022)"
  define Ey where "Ey = max (binade y) (- 1022)"
  have y0: "0 < y" using assms by simp
  have x0: "x \<noteq> 0" "y \<noteq> 0" using assms by simp_all
  have rx: "round_f64 x = of_int (nearest_even (x / quantum x)) * quantum x"
    and ry: "round_f64 y = of_int (nearest_even (y / quantum y)) * quantum y"
    using x0 by (simp_all add: round_f64_def)
  have le: "Ex \<le> Ey" using binade_mono [OF assms] by (simp add: Ex_def Ey_def)
  show ?thesis
  proof (cases "Ex = Ey")
    case True
    then have q: "quantum x = quantum y" by (simp add: quantum_def Ex_def Ey_def)
    have "x / quantum y \<le> y / quantum y" using assms(2) by (intro divide_right_mono) simp_all
    then have "nearest_even (x / quantum y) \<le> nearest_even (y / quantum y)"
      by (rule nearest_even_mono)
    then have "real_of_int (nearest_even (x / quantum y))
        \<le> real_of_int (nearest_even (y / quantum y))" by simp
    then show ?thesis unfolding rx ry q by (simp add: mult_right_mono)
  next
    case False
    then have lt: "Ex + 1 \<le> Ey" using le by simp
    have "x / quantum x < 2 ^ 53" using scaled_less [OF x0(1)] assms(1) by simp
    then have "x / quantum x \<le> real_of_int (2 ^ 53)" by simp
    then have "nearest_even (x / quantum x) \<le> 2 ^ 53" by (rule nearest_even_le)
    then have "real_of_int (nearest_even (x / quantum x)) \<le> real_of_int (2 ^ 53)" by linarith
    then have "real_of_int (nearest_even (x / quantum x)) \<le> 2 ^ 53" by simp
    then have "round_f64 x \<le> 2 ^ 53 * quantum x" unfolding rx by (simp add: mult_right_mono)
    also have "\<dots> = 2 powi (Ex + 1)"
      using quantum_times_2_53 [of x] by (simp add: Ex_def mult.commute)
    also have "\<dots> \<le> 2 powi Ey" using lt by (rule two_powi_mono)
    finally have A: "round_f64 x \<le> 2 powi Ey" .
    have bny: "- 1022 \<le> binade y" using lt by (simp add: Ex_def Ey_def max_def split: if_splits)
    have "2 ^ 52 \<le> y / quantum y" using scaled_ge [OF x0(2) bny] y0 by simp
    then have "real_of_int (2 ^ 52) \<le> y / quantum y" by simp
    then have "2 ^ 52 \<le> nearest_even (y / quantum y)" by (rule nearest_even_ge)
    then have "real_of_int (2 ^ 52) \<le> real_of_int (nearest_even (y / quantum y))" by linarith
    then have "2 ^ 52 \<le> real_of_int (nearest_even (y / quantum y))" by simp
    then have "2 ^ 52 * quantum y \<le> round_f64 y" unfolding ry by (simp add: mult_right_mono)
    moreover have "2 ^ 52 * quantum y = 2 powi Ey"
      using quantum_times_2_52 [of y] by (simp add: Ey_def mult.commute)
    ultimately have B: "2 powi Ey \<le> round_f64 y" by simp
    show ?thesis using A B by linarith
  qed
qed

lemma round_f64_mono:
  assumes "x \<le> y"
  shows "round_f64 x \<le> round_f64 y"
proof -
  consider (pos) "0 < x" | (mid) "x \<le> 0" "0 \<le> y" | (neg) "y < 0" using assms by linarith
  then show ?thesis
  proof cases
    case pos
    then show ?thesis using assms by (rule round_f64_mono_pos)
  next
    case mid
    have "round_f64 x \<le> 0" using round_f64_nonneg [of "- x"] mid(1) by (simp add: round_f64_minus)
    moreover have "0 \<le> round_f64 y" using mid(2) by (rule round_f64_nonneg)
    ultimately show ?thesis by linarith
  next
    case neg
    then have "0 < - y" "- y \<le> - x" using assms by simp_all
    then have "round_f64 (- y) \<le> round_f64 (- x)" by (rule round_f64_mono_pos)
    then show ?thesis by (simp add: round_f64_minus)
  qed
qed

lemma round_f64_between:
  assumes "a \<le> x" and "x \<le> b" and "round_f64 a = a" and "round_f64 b = b"
  shows "a \<le> round_f64 x \<and> round_f64 x \<le> b"
  using round_f64_mono [OF assms(1)] round_f64_mono [OF assms(2)] assms(3,4) by simp

subsection \<open>Representable numbers and the results of operations\<close>

lemma representable_int: "\<bar>k\<bar> \<le> 2 ^ 53 \<Longrightarrow> representable (of_int k)"
proof -
  assume k: "\<bar>k\<bar> \<le> 2 ^ 53"
  then have r: "round_f64 (of_int k) = of_int k" by (rule round_f64_of_int)
  have "real_of_int \<bar>k\<bar> \<le> real_of_int (2 ^ 53)" using k by linarith
  then have "\<bar>real_of_int k\<bar> \<le> 2 ^ 53" by simp
  also have "(2::real) ^ 53 < 2 ^ 1024" by (rule power_strict_increasing) simp_all
  finally show ?thesis using r by (simp add: representable_def)
qed

lemma representable_0 [simp]: "representable 0"
  using representable_int [of 0] by simp

lemma representable_1 [simp]: "representable 1"
  using representable_int [of 1] by simp

lemma representable_numeral [simp]: "numeral n \<le> (2::int) ^ 53 \<Longrightarrow> representable (numeral n)"
  using representable_int [of "numeral n"] by simp

lemma representable_half [simp]: "representable (1 / 2)"
proof -
  have "round_f64 (of_int 1 * 2 powi (- 1)) = of_int 1 * 2 powi (- 1)"
    by (rule round_f64_exact) simp_all
  then have "round_f64 (1 / 2) = 1 / 2" by (simp add: field_simps)
  moreover have "(1::real) < 2 ^ 1024" by (rule one_less_power) simp_all
  ultimately show ?thesis by (simp add: representable_def)
qed

lemma representable_round:
  assumes "\<bar>round_f64 x\<bar> < 2 ^ 1024"
  shows "representable (round_f64 x)"
  using assms by (simp add: representable_def)

lemma to_f64_cases:
  "(to_f64 x = Fin (round_f64 x) \<and> \<bar>round_f64 x\<bar> < 2 ^ 1024) \<or> to_f64 x = PInf \<or> to_f64 x = NInf"
  by (auto simp: to_f64_def Let_def abs_if)

lemma is_f64_to_f64 [simp]: "is_f64 (to_f64 x)"
  using to_f64_cases [of x] by (auto simp: is_f64_def representable_def)

lemma to_f64_representable: "representable x \<Longrightarrow> to_f64 x = Fin x"
  by (auto simp: representable_def to_f64_def Let_def abs_if split: if_splits)

lemma to_f64_in_range:
  assumes "a \<le> x" and "x \<le> b" and "representable a" and "representable b"
  shows "\<exists>z. to_f64 x = Fin z \<and> a \<le> z \<and> z \<le> b \<and> representable z \<and> z = round_f64 x"
proof -
  have ra: "round_f64 a = a" and rb: "round_f64 b = b"
    and la: "\<bar>a\<bar> < 2 ^ 1024" and lb: "\<bar>b\<bar> < 2 ^ 1024"
    using assms(3,4) by (simp_all add: representable_def)
  have bt: "a \<le> round_f64 x \<and> round_f64 x \<le> b"
    using assms(1,2) ra rb by (rule round_f64_between)
  then have lt: "\<bar>round_f64 x\<bar> < 2 ^ 1024" using la lb by (simp add: abs_if split: if_splits)
  then have "to_f64 x = Fin (round_f64 x)"
    by (auto simp: to_f64_def Let_def abs_if split: if_splits)
  moreover have "representable (round_f64 x)" using lt by (rule representable_round)
  ultimately show ?thesis using bt by simp
qed

lemma is_f64_signed_inf [simp]: "is_f64 (signed_inf b)"
  by (simp add: signed_inf_def is_f64_def)

lemma is_f64_special [simp]: "is_f64 PInf" "is_f64 NInf" "is_f64 NaN" "is_f64 (Fin 0)"
  by (simp_all add: is_f64_def)

lemma is_f64_fadd [simp]: "is_f64 (fadd a b)"
  by (cases a; cases b) simp_all

lemma is_f64_fsub [simp]: "is_f64 (fsub a b)"
  by (cases a; cases b) simp_all

lemma is_f64_fmul [simp]: "is_f64 (fmul a b)"
  by (cases a; cases b) simp_all

lemma is_f64_fdiv [simp]: "is_f64 (fdiv a b)"
  by (cases a; cases b) simp_all

lemma is_f64_lit [simp]: "is_f64 (lit d)"
  by (simp add: lit_def)


lemma fadd_zero_left: "is_f64 v \<Longrightarrow> fadd (Fin 0) v = v"
  by (cases v) (simp_all add: is_f64_def to_f64_representable)

lemma in_range_Fin: "in_range a b v \<Longrightarrow> \<exists>x. v = Fin x \<and> a \<le> x \<and> x \<le> b"
  by (cases v) (simp_all add: in_range_def)

lemma in_range_FinI: "a \<le> x \<Longrightarrow> x \<le> b \<Longrightarrow> in_range a b (Fin x)"
  by (simp add: in_range_def)

lemma lit_in_range:
  assumes "a \<le> d" and "d \<le> b" and "representable a" and "representable b"
  shows "\<exists>z. lit d = Fin z \<and> a \<le> z \<and> z \<le> b \<and> representable z \<and> z = round_f64 d"
  unfolding lit_def using assms by (rule to_f64_in_range)

subsection \<open>Sums of rounded percentages\<close>

lemma nearest_even_sum_le_100:
  assumes "x + y \<le> 100"
  shows "nearest_even x + nearest_even y \<le> 100"
proof (rule ccontr)
  assume "\<not> nearest_even x + nearest_even y \<le> 100"
  then have gt: "101 \<le> nearest_even x + nearest_even y" by simp
  define a where "a = nearest_even x"
  define b where "b = nearest_even y"
  have px: "\<bar>x - of_int a\<bar> < 1 / 2 \<or> (\<bar>x - of_int a\<bar> = 1 / 2 \<and> even a)"
    unfolding a_def by (rule nearest_even_props)
  have py: "\<bar>y - of_int b\<bar> < 1 / 2 \<or> (\<bar>y - of_int b\<bar> = 1 / 2 \<and> even b)"
    unfolding b_def by (rule nearest_even_props)
  have ab: "101 \<le> a + b" using gt by (simp add: a_def b_def)
  then have abr: "101 \<le> real_of_int a + real_of_int b" by linarith
  have x1: "real_of_int a - 1 / 2 \<le> x" using px by (auto simp: abs_if split: if_splits)
  have y1: "real_of_int b - 1 / 2 \<le> y" using py by (auto simp: abs_if split: if_splits)
  have eq: "real_of_int a + real_of_int b = 101" "x = real_of_int a - 1 / 2"
    "y = real_of_int b - 1 / 2"
    using x1 y1 abr assms by linarith+
  then have "a + b = 101" by linarith
  moreover have "even a" using px eq(2) by (auto simp: abs_if)
  moreover have "even b" using py eq(3) by (auto simp: abs_if)
  ultimately show False by presburger
qed

text \<open>Rounding a ratio of small integers to a float does not change the integer nearest to it.\<close>

lemma nearest_even_round_ratio:
  assumes "0 \<le> a" and "a \<le> 2 ^ 30" and "0 < t" and "t \<le> 256"
  shows "nearest_even (round_f64 (of_int a / of_int t)) = nearest_even (of_int a / of_int t)"
proof -
  define x where "x = real_of_int a / real_of_int t"
  define m where "m = nearest_even x"
  have tpos: "0 < real_of_int t" using assms(3) by simp
  have x0: "0 \<le> x" using assms(1) tpos by (simp add: x_def)
  have "x \<le> real_of_int a"
  proof -
    have "1 \<le> real_of_int t" using assms(3) by linarith
    moreover have "0 \<le> real_of_int a" using assms(1) by simp
    ultimately have "real_of_int a / real_of_int t \<le> real_of_int a / 1"
      by (intro divide_left_mono) simp_all
    then show ?thesis by (simp add: x_def)
  qed
  then have xle: "x \<le> real_of_int (2 ^ 30)" using assms(2) by linarith
  have m0: "0 \<le> m" unfolding m_def using x0 by (rule nearest_even_nonneg)
  have mle: "m \<le> 2 ^ 30" unfolding m_def using xle by (rule nearest_even_le)
  have props: "\<bar>x - of_int m\<bar> < 1 / 2 \<or> (\<bar>x - of_int m\<bar> = 1 / 2 \<and> even m)"
    unfolding m_def by (rule nearest_even_props)
  have xt: "x * real_of_int t = real_of_int a" using tpos by (simp add: x_def)
  show ?thesis
  proof (cases "\<bar>x - of_int m\<bar> = 1 / 2")
    case True
    define h1 where "h1 = real_of_int (2 * m + 1) * 2 powi (- 1)"
    define h2 where "h2 = real_of_int (2 * m - 1) * 2 powi (- 1)"
    have h1: "h1 = real_of_int m + 1 / 2" by (simp add: h1_def field_simps)
    have h2: "h2 = real_of_int m - 1 / 2" by (simp add: h2_def field_simps)
    have r1: "round_f64 h1 = h1" unfolding h1_def
      using m0 mle by (intro round_f64_exact) simp_all
    have r2: "round_f64 h2 = h2" unfolding h2_def
      using m0 mle by (intro round_f64_exact) simp_all
    have "x = h1 \<or> x = h2" using True unfolding h1 h2
      by (auto simp: abs_if split: if_splits)
    then have "round_f64 x = x" using r1 r2 by auto
    then show ?thesis by (simp add: x_def)
  next
    case False
    then have lt: "\<bar>x - of_int m\<bar> < 1 / 2" using props by blast
    define d where "d = a - m * t"
    have dx: "real_of_int d = (x - of_int m) * real_of_int t"
      using xt by (simp add: d_def algebra_simps)
    have "\<bar>real_of_int d\<bar> = \<bar>x - of_int m\<bar> * real_of_int t"
      unfolding dx using tpos by (simp add: abs_mult)
    also have "\<dots> < 1 / 2 * real_of_int t" using lt tpos by (simp add: mult_strict_right_mono)
    finally have "2 * \<bar>real_of_int d\<bar> < real_of_int t" by simp
    then have "real_of_int (2 * \<bar>d\<bar>) < real_of_int t" by simp
    then have "2 * \<bar>d\<bar> < t" by linarith
    then have "2 * \<bar>d\<bar> \<le> t - 1" by simp
    then have "real_of_int (2 * \<bar>d\<bar>) \<le> real_of_int (t - 1)" by linarith
    then have d2: "2 * \<bar>real_of_int d\<bar> \<le> real_of_int t - 1" by simp
    have "\<bar>x - of_int m\<bar> = \<bar>real_of_int d\<bar> / real_of_int t"
      unfolding dx using tpos by (simp add: abs_mult)
    also have "\<dots> \<le> ((real_of_int t - 1) / 2) / real_of_int t"
      using d2 tpos by (intro divide_right_mono) simp_all
    also have "\<dots> = 1 / 2 - 1 / (2 * real_of_int t)"
      using tpos by (simp add: field_simps)
    also have "\<dots> \<le> 1 / 2 - 1 / 512"
    proof -
      have "real_of_int t \<le> 256" using assms(4) by linarith
      then have "1 / 512 \<le> 1 / (2 * real_of_int t)" using tpos by (simp add: field_simps)
      then show ?thesis by simp
    qed
    finally have close: "\<bar>x - of_int m\<bar> \<le> 1 / 2 - 1 / 512" .
    define lo where "lo = real_of_int (512 * m - 255) * 2 powi (- 9)"
    define hi where "hi = real_of_int (512 * m + 255) * 2 powi (- 9)"
    have lo: "lo = real_of_int m - (1 / 2 - 1 / 512)"
      by (simp add: lo_def power_int_minus field_simps)
    have hi: "hi = real_of_int m + (1 / 2 - 1 / 512)"
      by (simp add: hi_def power_int_minus field_simps)
    have rlo: "round_f64 lo = lo" unfolding lo_def
      using m0 mle by (intro round_f64_exact) simp_all
    have rhi: "round_f64 hi = hi" unfolding hi_def
      using m0 mle by (intro round_f64_exact) simp_all
    have "lo \<le> x" "x \<le> hi" using close unfolding lo hi by (auto simp: abs_if split: if_splits)
    then have "lo \<le> round_f64 x \<and> round_f64 x \<le> hi" using rlo rhi by (rule round_f64_between)
    then have "\<bar>round_f64 x - of_int m\<bar> < 1 / 2" unfolding lo hi by (auto simp: abs_if)
    then have "nearest_even (round_f64 x) = m" by (intro nearest_even_eqI) simp
    then show ?thesis by (simp add: m_def x_def)
  qed
qed

subsection \<open>Readings inside their ranges: the points\<close>

lemma in_range_weaken: "in_range a b v \<Longrightarrow> a' \<le> a \<Longrightarrow> b \<le> b' \<Longrightarrow> in_range a' b' v"
  by (cases v) (simp_all add: in_range_def)

lemma in_range_to_f64:
  assumes "a \<le> x" and "x \<le> b" and "representable a" and "representable b"
  shows "in_range a b (to_f64 x)"
  using to_f64_in_range [OF assms] by (auto simp: in_range_def)

lemma normalize_in_range:
  assumes "in_range a (a + w) v" and "0 < w" and "representable w"
  shows "in_range 0 1 (fdiv (fsub v (Fin a)) (Fin w))"
proof -
  obtain x where v: "v = Fin x" and x: "a \<le> x" "x \<le> a + w"
    using in_range_Fin [OF assms(1)] by blast
  have "0 \<le> x - a" "x - a \<le> w" using x by simp_all
  then obtain d where d: "to_f64 (x - a) = Fin d" "0 \<le> d" "d \<le> w"
    using to_f64_in_range [of 0 "x - a" w] assms(3) by auto
  have "0 \<le> d / w" "d / w \<le> 1" using d(2,3) assms(2) by simp_all
  then have "in_range 0 1 (to_f64 (d / w))" by (intro in_range_to_f64) simp_all
  then show ?thesis using v d(1) by simp
qed

lemma points_term:
  assumes "in_range 0 n e" and "b \<le> a" and "a - b \<le> 1" and "0 \<le> K" and "representable K"
    and "n + K \<le> N" and "representable N"
  shows "in_range 0 N (fadd e (fmul (fsub (Fin a) (Fin b)) (Fin K)))"
proof -
  obtain ev where e: "e = Fin ev" and ev: "0 \<le> ev" "ev \<le> n"
    using in_range_Fin [OF assms(1)] by blast
  have "0 \<le> a - b" using assms(2) by simp
  then obtain d where d: "to_f64 (a - b) = Fin d" "0 \<le> d" "d \<le> 1"
    using to_f64_in_range [of 0 "a - b" 1] assms(3) by auto
  have "0 \<le> d * K" using d(2) assms(4) by simp
  moreover have "d * K \<le> K"
  proof -
    have "d * K \<le> 1 * K" using d(3) assms(4) by (rule mult_right_mono)
    then show ?thesis by simp
  qed
  ultimately obtain m where m: "to_f64 (d * K) = Fin m" "0 \<le> m" "m \<le> K"
    using to_f64_in_range [of 0 "d * K" K] assms(5) by auto
  have "0 \<le> ev + m" "ev + m \<le> N" using ev m(2,3) assms(6) by simp_all
  then have "in_range 0 N (to_f64 (ev + m))" using assms(7) by (intro in_range_to_f64) simp_all
  then show ?thesis using e d(1) m(1) by simp
qed

lemma points_step:
  assumes "in_range 0 n e" and "b < a \<Longrightarrow> a - b \<le> 1" and "0 \<le> K" and "representable K"
    and "n + K \<le> N" and "representable N"
  shows "in_range 0 N
    (if flt (Fin b) (Fin a) then fadd e (fmul (fsub (Fin a) (Fin b)) (Fin K)) else e)"
proof (cases "b < a")
  case True
  then have "in_range 0 N (fadd e (fmul (fsub (Fin a) (Fin b)) (Fin K)))"
    using assms by (intro points_term [where n = n]) simp_all
  then show ?thesis using True by simp
next
  case False
  have "in_range 0 N e" using assms(1) by (rule in_range_weaken) (use assms(3,5) in simp_all)
  then show ?thesis using False by simp
qed

lemma points_step2:
  assumes "in_range 0 n e" and "b1 < a1 \<Longrightarrow> a1 - b1 \<le> 1" and "b2 < a2 \<Longrightarrow> a2 - b2 \<le> 1"
    and "0 \<le> K1" and "representable K1" and "0 \<le> K2" and "representable K2"
    and "n + K1 \<le> N" and "n + K2 \<le> N" and "representable N"
  shows "in_range 0 N
    (if flt (Fin b1) (Fin a1) then fadd e (fmul (fsub (Fin a1) (Fin b1)) (Fin K1))
     else if flt (Fin b2) (Fin a2) then fadd e (fmul (fsub (Fin a2) (Fin b2)) (Fin K2))
     else e)"
proof (cases "b1 < a1")
  case True
  then have "in_range 0 N (fadd e (fmul (fsub (Fin a1) (Fin b1)) (Fin K1)))"
    using assms by (intro points_term [where n = n]) simp_all
  then show ?thesis using True by simp
next
  case False
  have "in_range 0 N
    (if flt (Fin b2) (Fin a2) then fadd e (fmul (fsub (Fin a2) (Fin b2)) (Fin K2)) else e)"
    using assms(1,3,6,7,9,10) by (rule points_step)
  then show ?thesis using False by simp
qed

lemma extra_risk_points_in_range:
  assumes "in_range 0 1 temp_normalized" and "in_range 0 1 vib_normalized"
    and "in_range (1 / 2) (3 / 2) flow_rate" and "in_range 0 1 lube_health"
    and "in_range 0 1 stress_in" and "in_range 0 1 rul_in"
  shows "in_range 0 675
    (extra_risk_points temp_normalized vib_normalized flow_rate lube_health stress_in rul_in)"
proof -
  obtain tn where tn: "temp_normalized = Fin tn" "0 \<le> tn" "tn \<le> 1"
    using in_range_Fin [OF assms(1)] by blast
  obtain vn where vn: "vib_normalized = Fin vn" "0 \<le> vn" "vn \<le> 1"
    using in_range_Fin [OF assms(2)] by blast
  obtain fl where fl: "flow_rate = Fin fl" "1 / 2 \<le> fl" "fl \<le> 3 / 2"
    using in_range_Fin [OF assms(3)] by blast
  obtain lu where lu: "lube_health = Fin lu" "0 \<le> lu" "lu \<le> 1"
    using in_range_Fin [OF assms(4)] by blast
  obtain st where st: "stress_in = Fin st" "0 \<le> st" "st \<le> 1"
    using in_range_Fin [OF assms(5)] by blast
  obtain ru where ru: "rul_in = Fin ru" "0 \<le> ru" "ru \<le> 1"
    using in_range_Fin [OF assms(6)] by blast
  obtain L3 where L3: "lit (3 / 10) = Fin L3" "0 \<le> L3" "L3 \<le> 1"
    using lit_in_range [of 0 "3 / 10" 1] by auto
  obtain L7 where L7: "lit (7 / 10) = Fin L7" "0 \<le> L7" "L7 \<le> 1"
    using lit_in_range [of 0 "7 / 10" 1] by auto
  obtain L11 where L11: "lit (11 / 10) = Fin L11" "1 \<le> L11" "L11 \<le> 2"
    using lit_in_range [of 1 "11 / 10" 2] by auto
  obtain L4 where L4: "lit (4 / 10) = Fin L4" "0 \<le> L4" "L4 \<le> 1"
    using lit_in_range [of 0 "4 / 10" 1] by auto
  obtain L6 where L6: "lit (6 / 10) = Fin L6" "0 \<le> L6" "L6 \<le> 1"
    using lit_in_range [of 0 "6 / 10" 1] by auto
  define e0 where "e0 = Fin 0"
  define e1 where "e1 = (if flt (Fin L3) (Fin tn)
      then fadd e0 (fmul (fsub (Fin tn) (Fin L3)) (Fin 150)) else e0)"
  define e2 where "e2 = (if flt (Fin L3) (Fin vn)
      then fadd e1 (fmul (fsub (Fin vn) (Fin L3)) (Fin 150)) else e1)"
  define e3 where "e3 = (if flt (Fin fl) (Fin L7)
      then fadd e2 (fmul (fsub (Fin L7) (Fin fl)) (Fin 50))
      else if flt (Fin L11) (Fin fl)
      then fadd e2 (fmul (fsub (Fin fl) (Fin L11)) (Fin 75))
      else e2)"
  define e4 where "e4 = (if flt (Fin lu) (Fin L4)
      then fadd e3 (fmul (fsub (Fin L4) (Fin lu)) (Fin 100)) else e3)"
  define e5 where "e5 = (if flt (Fin L6) (Fin st)
      then fadd e4 (fmul (fsub (Fin st) (Fin L6)) (Fin 80)) else e4)"
  define e6 where "e6 = (if flt (Fin ru) (Fin L3)
      then fadd e5 (fmul (fsub (Fin L3) (Fin ru)) (Fin 120)) else e5)"
  have eq: "extra_risk_points temp_normalized vib_normalized flow_rate lube_health
      stress_in rul_in = e6"
    unfolding extra_risk_points_def Let_def tn(1) vn(1) fl(1) lu(1) st(1) ru(1)
      L3(1) L7(1) L11(1) L4(1) L6(1) e6_def e5_def e4_def e3_def e2_def e1_def e0_def
    by (rule refl)
  have r0: "in_range 0 0 e0" by (simp add: e0_def in_range_def)
  have r1: "in_range 0 150 e1" unfolding e1_def
    using r0 tn L3 by (intro points_step [where n = 0]) simp_all
  have r2: "in_range 0 300 e2" unfolding e2_def
    using r1 vn L3 by (intro points_step [where n = 150]) simp_all
  have r3: "in_range 0 375 e3" unfolding e3_def
    using r2 fl L7 L11 by (intro points_step2 [where n = 300]) simp_all
  have r4: "in_range 0 475 e4" unfolding e4_def
    using r3 lu L4 by (intro points_step [where n = 375]) simp_all
  have r5: "in_range 0 555 e5" unfolding e5_def
    using r4 st L6 by (intro points_step [where n = 475]) simp_all
  have r6: "in_range 0 675 e6" unfolding e6_def
    using r5 ru L3 by (intro points_step [where n = 555]) simp_all
  show ?thesis unfolding eq by (rule r6)
qed

subsection \<open>Readings inside their ranges: base score and final index\<close>

lemma representable_pow2:
  assumes "j \<le> 1023"
  shows "representable (2 ^ j)"
proof -
  have "round_f64 (of_int 1 * 2 powi (int j)) = of_int 1 * 2 powi (int j)"
    by (rule round_f64_exact) simp_all
  then have "round_f64 (2 ^ j) = 2 ^ j" by simp
  moreover have "(2::real) ^ j < 2 ^ 1024" using assms by (intro power_strict_increasing) simp_all
  ultimately show ?thesis by (simp add: representable_def)
qed

lemma representable_minus: "representable x \<Longrightarrow> representable (- x)"
  by (simp add: representable_def round_f64_minus)

lemma representable_integer_valued:
  assumes "representable q" and "2 ^ 53 < \<bar>q\<bar>"
  shows "\<exists>m. q = of_int m"
proof -
  obtain k j where k: "\<bar>k\<bar> \<le> 2 ^ 53" and q: "round_f64 q = of_int k * 2 powi j"
    using round_f64_form [of q] by blast
  have qq: "q = of_int k * 2 powi j" using assms(1) q by (simp add: representable_def)
  have "real_of_int \<bar>k\<bar> \<le> real_of_int (2 ^ 53)" using k by linarith
  then have kr: "\<bar>real_of_int k\<bar> \<le> 2 ^ 53" by simp
  have j1: "1 \<le> j"
  proof (rule ccontr)
    assume "\<not> 1 \<le> j"
    then have "j \<le> 0" by simp
    then have "(2::real) powi j \<le> 2 powi 0" by (rule two_powi_mono)
    then have le1: "(2::real) powi j \<le> 1" by simp
    have "\<bar>q\<bar> = \<bar>real_of_int k\<bar> * 2 powi j" unfolding qq by (simp add: abs_mult)
    also have "\<dots> \<le> \<bar>real_of_int k\<bar> * 1" using le1 by (intro mult_left_mono) simp_all
    finally have "\<bar>q\<bar> \<le> 2 ^ 53" using kr by simp
    then show False using assms(2) by simp
  qed
  then have "(2::real) powi j = 2 ^ nat j" by (simp add: power_int_def)
  then have "q = real_of_int (k * 2 ^ nat j)" unfolding qq by simp
  then show ?thesis by blast
qed

lemma representable_nearest_even:
  assumes "representable q"
  shows "representable (of_int (nearest_even q))"
proof (cases "\<bar>q\<bar> \<le> 2 ^ 53")
  case True
  then have "q \<le> real_of_int (2 ^ 53)" and "real_of_int (- (2 ^ 53)) \<le> q"
    by (simp_all add: abs_if split: if_splits)
  then have "nearest_even q \<le> 2 ^ 53" and "- (2 ^ 53) \<le> nearest_even q"
    by (auto intro: nearest_even_le nearest_even_ge)
  then have "\<bar>nearest_even q\<bar> \<le> 2 ^ 53" by simp
  then show ?thesis by (rule representable_int)
next
  case False
  then have "2 ^ 53 < \<bar>q\<bar>" by simp
  then obtain m where "q = of_int m" using representable_integer_valued [OF assms] by blast
  then show ?thesis using assms by simp
qed

lemma base_score_ok:
  assumes "\<bar>p\<bar> \<le> 2 ^ 1000"
  shows "\<exists>q. fmul (Fin p) (Fin 120) = Fin q \<and> representable q \<and> \<bar>q\<bar> \<le> 2 ^ 1007 \<and>
    (0 \<le> p \<longrightarrow> 0 \<le> q) \<and> q = round_f64 (p * 120) \<and>
    base_score (Float (Fin p)) = Inr (nearest_even q)"
proof -
  have "\<bar>p * 120\<bar> \<le> 2 ^ 1000 * 120" using assms by (simp add: abs_mult)
  also have "\<dots> \<le> (2::real) ^ 1000 * 2 ^ 7" by simp
  also have "\<dots> = 2 ^ 1007" by (simp flip: power_add)
  finally have b: "- (2 ^ 1007) \<le> p * 120" "p * 120 \<le> 2 ^ 1007"
    by (simp_all add: abs_if split: if_splits)
  have r: "representable (2 ^ 1007 :: real)" by (rule representable_pow2) simp
  obtain q where q: "to_f64 (p * 120) = Fin q" "- (2 ^ 1007) \<le> q" "q \<le> 2 ^ 1007"
    "representable q" "q = round_f64 (p * 120)"
    using to_f64_in_range [OF b representable_minus [OF r] r] by blast
  have "0 \<le> p \<longrightarrow> 0 \<le> q" unfolding q(5) by (simp add: round_f64_nonneg)
  moreover have "\<bar>q\<bar> \<le> 2 ^ 1007" using q(2,3) by (simp add: abs_if)
  moreover have "base_score (Float (Fin p)) = Inr (nearest_even q)"
    using q(1) by (simp add: base_score_def)
  ultimately show ?thesis using q(1,4,5) by simp
qed

lemma py_trunc_min_100: "py_trunc (min 100 z) \<le> 100" "0 \<le> z \<Longrightarrow> 0 \<le> py_trunc (min 100 z)"
proof -
  show "py_trunc (min 100 z) \<le> 100"
    unfolding py_trunc_def by (auto simp: min_def ceiling_le_iff; linarith)
  show "0 \<le> z \<Longrightarrow> 0 \<le> py_trunc (min 100 z)"
    unfolding py_trunc_def by (auto simp: min_def)
qed

lemma final_index_ok:
  assumes "representable q" and "\<bar>q\<bar> \<le> 2 ^ 1007" and "in_range 0 675 points"
  shows "\<exists>z. fadd (Fin (of_int (nearest_even q))) points = Fin z \<and>
    (0 \<le> q \<longrightarrow> 0 \<le> z) \<and>
    final_index (nearest_even q) points = Inr (py_trunc (min 100 z))"
proof -
  define b where "b = nearest_even q"
  obtain pz where pz: "points = Fin pz" "0 \<le> pz" "pz \<le> 675"
    using in_range_Fin [OF assms(3)] by blast
  have rb: "representable (real_of_int b)" unfolding b_def
    using assms(1) by (rule representable_nearest_even)
  then have fb: "float_of_int b = Inr (Fin (real_of_int b))"
    by (simp add: float_of_int_def to_f64_representable)
  have "q \<le> real_of_int (2 ^ 1007)" and "real_of_int (- (2 ^ 1007)) \<le> q"
    using assms(2) by (simp_all add: abs_if split: if_splits)
  then have "b \<le> 2 ^ 1007" and "- (2 ^ 1007) \<le> b" unfolding b_def
    by (auto intro: nearest_even_le nearest_even_ge)
  then have "real_of_int b \<le> real_of_int (2 ^ 1007)" "real_of_int (- (2 ^ 1007)) \<le> real_of_int b"
    by linarith+
  then have bb: "real_of_int b \<le> 2 ^ 1007" "- (2 ^ 1007) \<le> real_of_int b" by simp_all
  have r8: "representable (2 ^ 1008 :: real)" by (rule representable_pow2) simp
  have "(2::real) ^ 1008 = 2 ^ 1007 + 2 ^ 1007" by simp
  moreover have "(675::real) \<le> 2 ^ 1007"
  proof -
    have "(675::real) \<le> 2 ^ 10" by simp
    also have "\<dots> \<le> 2 ^ 1007" by (rule power_increasing) simp_all
    finally show ?thesis .
  qed
  ultimately have s: "- (2 ^ 1008) \<le> real_of_int b + pz" "real_of_int b + pz \<le> 2 ^ 1008"
    using bb pz(2,3) by linarith+
  obtain z where z: "to_f64 (real_of_int b + pz) = Fin z" "z = round_f64 (real_of_int b + pz)"
    using to_f64_in_range [OF s representable_minus [OF r8] r8] by blast
  have nn: "0 \<le> q \<longrightarrow> 0 \<le> z"
  proof
    assume "0 \<le> q"
    then have "0 \<le> b" unfolding b_def by (rule nearest_even_nonneg)
    then have "0 \<le> real_of_int b + pz" using pz(2) by simp
    then show "0 \<le> z" unfolding z(2) by (rule round_f64_nonneg)
  qed
  have fi: "final_index b points = Inr (py_trunc (min 100 z))"
  proof (cases "z < 100")
    case True
    then show ?thesis using fb pz(1) z(1) by (simp add: final_index_def Let_def min_def)
  next
    case False
    then have "min 100 z = 100" by (simp add: min_def)
    then have "py_trunc (min 100 z) = 100" by (simp add: py_trunc_def)
    then show ?thesis using False fb pz(1) z(1) by (simp add: final_index_def Let_def)
  qed
  show ?thesis using nn fi pz(1) z(1) by (simp add: b_def)
qed

subsection \<open>Readings inside their ranges: the shares\<close>

lemma contribution_shares_eq_spec:
  "contribution_shares tn vn cs cr = shares_spec tn vn cs cr"
  unfolding contribution_shares_def shares_spec_def rounded_shares_spec_def rescaled_spec_def
    ratio_percent_spec_def rescale_percent_spec_def both_def Let_def
  by (auto split: sum.splits prod.splits)

lemma scaled_literal:
  assumes "0 \<le> d" and "d \<le> 1 / 2" and "0 \<le> x" and "x \<le> 2"
  shows "\<exists>z. fmul (lit d) (Fin x) = Fin z \<and> 0 \<le> z \<and> z \<le> 1 \<and> representable z"
proof -
  obtain l where l: "lit d = Fin l" "0 \<le> l" "l \<le> 1 / 2"
    using lit_in_range [of 0 d "1 / 2"] assms(1,2) by auto
  have "l * x \<le> (1 / 2) * 2" using l(2,3) assms(3,4) by (intro mult_mono) simp_all
  then have "0 \<le> l * x" "l * x \<le> 1" using l(2) assms(3) by simp_all
  then obtain z where "to_f64 (l * x) = Fin z" "0 \<le> z" "z \<le> 1" "representable z"
    using to_f64_in_range [of 0 "l * x" 1] by auto
  then show ?thesis using l(1) by auto
qed

lemma influences_in_range:
  assumes "in_range 0 1 tn" and "in_range 0 1 vn"
    and "in_range (round_f64 (1 / 10)) 1 cs" and "in_range 0 1 cr"
  shows "\<exists>ci ri T. corrosion_influence cs = Fin ci \<and> rate_influence cr = Fin ri \<and>
    total_dynamic_influence tn vn cs cr = Fin T \<and>
    0 \<le> ci \<and> ci \<le> T \<and> 0 \<le> ri \<and> ri \<le> T"
proof -
  obtain a where a: "tn = Fin a" "0 \<le> a" "a \<le> 1" using in_range_Fin [OF assms(1)] by blast
  obtain b where b: "vn = Fin b" "0 \<le> b" "b \<le> 1" using in_range_Fin [OF assms(2)] by blast
  obtain c where c: "cs = Fin c" "round_f64 (1 / 10) \<le> c" "c \<le> 1"
    using in_range_Fin [OF assms(3)] by blast
  obtain r where r: "cr = Fin r" "0 \<le> r" "r \<le> 1" using in_range_Fin [OF assms(4)] by blast
  \<comment> \<open>corrosion\<close>
  obtain L1 where L1: "lit (1 / 10) = Fin L1" "0 \<le> L1" "L1 = round_f64 (1 / 10)"
    using lit_in_range [of 0 "1 / 10" 1] by auto
  have "0 \<le> c - L1" "c - L1 \<le> 1" using c L1 by simp_all
  then obtain d1 where d1: "to_f64 (c - L1) = Fin d1" "0 \<le> d1" "d1 \<le> 1"
    using to_f64_in_range [of 0 "c - L1" 1] by auto
  obtain L9 where L9: "lit (9 / 10) = Fin L9" "1 / 2 \<le> L9" "L9 \<le> 1"
    using lit_in_range [of "1 / 2" "9 / 10" 1] by auto
  have "d1 / L9 \<le> 1 / (1 / 2)" using d1(2,3) L9(2) by (intro frac_le) simp_all
  then have "0 \<le> d1 / L9" "d1 / L9 \<le> 2" using d1(2) L9(2) by simp_all
  then obtain cn where cn: "to_f64 (d1 / L9) = Fin cn" "0 \<le> cn" "cn \<le> 2"
    using to_f64_in_range [of 0 "d1 / L9" 2] by auto
  obtain ci where ci: "fmul (lit (45 / 100)) (Fin cn) = Fin ci" "0 \<le> ci" "ci \<le> 1"
    "representable ci"
    using scaled_literal [of "45 / 100" cn] cn(2,3) by auto
  have cinf: "corrosion_influence cs = Fin ci"
    using c(1) L1(1) d1(1) L9(1) cn(1) ci(1) by (simp add: corrosion_influence_def Let_def)
  \<comment> \<open>rate\<close>
  obtain rn where rn: "to_f64 (r / 1) = Fin rn" "0 \<le> rn" "rn \<le> 1"
    using to_f64_in_range [of 0 "r / 1" 1] r(2,3) by auto
  obtain ri where ri: "fmul (lit (40 / 100)) (Fin rn) = Fin ri" "0 \<le> ri" "ri \<le> 1"
    "representable ri"
    using scaled_literal [of "40 / 100" rn] rn(2,3) by auto
  have rinf: "rate_influence cr = Fin ri"
    using r(1) rn(1) ri(1) by (simp add: rate_influence_def Let_def)
  \<comment> \<open>temperature and vibration\<close>
  have "0 \<le> a + b" "a + b \<le> 2" using a b by simp_all
  then obtain s1 where s1: "to_f64 (a + b) = Fin s1" "0 \<le> s1" "s1 \<le> 2"
    using to_f64_in_range [of 0 "a + b" 2] by auto
  obtain m where m: "fmul (lit (15 / 100)) (Fin s1) = Fin m" "0 \<le> m" "m \<le> 1"
    using scaled_literal [of "15 / 100" s1] s1(2,3) by auto
  have "0 \<le> m / 2" "m / 2 \<le> 1" using m(2,3) by simp_all
  then obtain tv where tv: "to_f64 (m / 2) = Fin tv" "0 \<le> tv" "tv \<le> 1"
    using to_f64_in_range [of 0 "m / 2" 1] by auto
  have tvinf: "temp_vib_influence tn vn = Fin tv"
    using a(1) b(1) s1(1) m(1) tv(1) by (simp add: temp_vib_influence_def)
  \<comment> \<open>the total\<close>
  have "0 \<le> ci + ri" "ci + ri \<le> 2" using ci(2,3) ri(2,3) by simp_all
  then obtain s where s: "to_f64 (ci + ri) = Fin s" "0 \<le> s" "s \<le> 2" "representable s"
    "s = round_f64 (ci + ri)"
    using to_f64_in_range [of 0 "ci + ri" 2] by auto
  have "round_f64 ci \<le> round_f64 (ci + ri)" using ri(2) by (intro round_f64_mono) simp
  then have cis: "ci \<le> s" using ci(4) s(5) by (simp add: representable_def)
  have "round_f64 ri \<le> round_f64 (ci + ri)" using ci(2) by (intro round_f64_mono) simp
  then have ris: "ri \<le> s" using ri(4) s(5) by (simp add: representable_def)
  have "0 \<le> s + tv" "s + tv \<le> 3" using s(2,3) tv(2,3) by simp_all
  then obtain T where T: "to_f64 (s + tv) = Fin T" "T = round_f64 (s + tv)"
    using to_f64_in_range [of 0 "s + tv" 3] by auto
  have "round_f64 s \<le> round_f64 (s + tv)" using tv(2) by (intro round_f64_mono) simp
  then have sT: "s \<le> T" using s(4) T(2) by (simp add: representable_def)
  have tot: "total_dynamic_influence tn vn cs cr = Fin T"
    using cinf rinf tvinf s(1) T(1) by (simp add: total_dynamic_influence_def)
  show ?thesis using cinf rinf tot ci(2) ri(2) cis ris sT by auto
qed

lemma ratio_percent_ok:
  assumes "0 \<le> i" and "i \<le> T" and "0 < T"
  shows "\<exists>c. ratio_percent_spec (Fin i) (Fin T) = Inr c \<and> 0 \<le> c \<and> c \<le> 100"
proof -
  have "0 \<le> i / T" "i / T \<le> 1" using assms by simp_all
  then obtain q where q: "to_f64 (i / T) = Fin q" "0 \<le> q" "q \<le> 1"
    using to_f64_in_range [of 0 "i / T" 1] by auto
  have "q * 100 \<le> 1 * 100" using q(3) by (intro mult_right_mono) simp_all
  then have "0 \<le> q * 100" "q * 100 \<le> 100" using q(2) by simp_all
  then obtain w where w: "to_f64 (q * 100) = Fin w" "0 \<le> w" "w \<le> 100"
    using to_f64_in_range [of 0 "q * 100" 100] by auto
  have "0 \<le> nearest_even w" using w(2) by (rule nearest_even_nonneg)
  moreover have "nearest_even w \<le> 100" using w(3) by (intro nearest_even_le) simp
  moreover have "ratio_percent_spec (Fin i) (Fin T) = Inr (nearest_even w)"
    using assms(3) q(1) w(1) by (simp add: ratio_percent_spec_def py_truediv_def)
  ultimately show ?thesis by simp
qed

lemma rescale_percent_ok:
  assumes "0 \<le> c" and "c \<le> t" and "100 < t" and "t \<le> 200"
  shows "rescale_percent_spec c t = Inr (nearest_even (of_int (c * 100) / of_int t))"
proof -
  define x where "x = real_of_int (c * 100) / real_of_int t"
  have tpos: "0 < real_of_int t" using assms(3) by simp
  have "real_of_int (c * 100) \<le> real_of_int (t * 100)" using assms(2) by simp
  then have "x \<le> real_of_int (t * 100) / real_of_int t"
    unfolding x_def using tpos by (intro divide_right_mono) simp_all
  also have "\<dots> = 100" using tpos by simp
  finally have x100: "x \<le> 100" .
  have x0: "0 \<le> x" unfolding x_def using assms(1) tpos by simp
  obtain z where z: "to_f64 x = Fin z" "z = round_f64 x"
    using to_f64_in_range [of 0 x 100] x0 x100 by auto
  have "c * 100 \<le> 200 * 100" using assms(2,4) by simp
  also have "\<dots> \<le> (2::int) ^ 30" by simp
  finally have "c * 100 \<le> 2 ^ 30" .
  moreover have "0 \<le> c * 100" using assms(1) by simp
  ultimately have "nearest_even (round_f64 x) = nearest_even x"
    unfolding x_def using assms(3,4) by (intro nearest_even_round_ratio) simp_all
  then show ?thesis
    using z assms(3) by (simp add: rescale_percent_spec_def int_truediv_def x_def)
qed

lemma rescaled_spec_ok:
  assumes "0 \<le> c" and "c \<le> 100" and "0 \<le> r" and "r \<le> 100"
  shows "\<exists>c' r'. rescaled_spec (c, r) = Inr (c', r') \<and> 0 \<le> c' \<and> 0 \<le> r' \<and> c' + r' \<le> 100"
proof (cases "100 < c + r")
  case False
  then show ?thesis using assms by (simp add: rescaled_spec_def Let_def)
next
  case True
  define t where "t = c + r"
  define x where "x = real_of_int (c * 100) / real_of_int t"
  define y where "y = real_of_int (r * 100) / real_of_int t"
  have t: "100 < t" "t \<le> 200" "c \<le> t" "r \<le> t" using True assms by (simp_all add: t_def)
  have tpos: "0 < real_of_int t" using t(1) by simp
  have rc: "rescale_percent_spec c t = Inr (nearest_even x)"
    unfolding x_def using assms(1) t(3,1,2) by (rule rescale_percent_ok)
  have rr: "rescale_percent_spec r t = Inr (nearest_even y)"
    unfolding y_def using assms(3) t(4,1,2) by (rule rescale_percent_ok)
  have "real_of_int (c * 100) + real_of_int (r * 100) = real_of_int t * 100"
    by (simp add: t_def algebra_simps)
  then have "x + y = (real_of_int t * 100) / real_of_int t"
    by (simp add: x_def y_def add_divide_distrib [symmetric])
  also have "\<dots> = 100" using tpos by simp
  finally have "x + y \<le> 100" by simp
  then have sum: "nearest_even x + nearest_even y \<le> 100" by (rule nearest_even_sum_le_100)
  have "0 \<le> x" unfolding x_def using assms(1) tpos by simp
  then have x0: "0 \<le> nearest_even x" by (rule nearest_even_nonneg)
  have "0 \<le> y" unfolding y_def using assms(3) tpos by simp
  then have y0: "0 \<le> nearest_even y" by (rule nearest_even_nonneg)
  have "rescaled_spec (c, r) = Inr (nearest_even x, nearest_even y)"
    using True rc rr by (simp add: rescaled_spec_def Let_def both_def t_def)
  then show ?thesis using sum x0 y0 by simp
qed

lemma valid_shares:
  assumes "in_range 0 1 tn" and "in_range 0 1 vn"
    and "in_range (round_f64 (1 / 10)) 1 cs" and "in_range 0 1 cr"
  shows "\<exists>c r. contribution_shares tn vn cs cr = Inr (c, r) \<and> 0 \<le> c \<and> 0 \<le> r \<and> c + r \<le> 100"
proof -
  obtain ci ri T where inf: "corrosion_influence cs = Fin ci" "rate_influence cr = Fin ri"
    "total_dynamic_influence tn vn cs cr = Fin T" "0 \<le> ci" "ci \<le> T" "0 \<le> ri" "ri \<le> T"
    using influences_in_range [OF assms] by blast
  obtain L where L: "lit (1 / 100) = Fin L" "0 \<le> L"
    using lit_in_range [of 0 "1 / 100" 1] by auto
  have "\<exists>c0 r0. rounded_shares_spec tn vn cs cr = Inr (c0, r0) \<and>
      0 \<le> c0 \<and> c0 \<le> 100 \<and> 0 \<le> r0 \<and> r0 \<le> 100"
  proof (cases "L < T")
    case False
    then show ?thesis using inf(3) L(1) by (simp add: rounded_shares_spec_def Let_def)
  next
    case True
    then have Tpos: "0 < T" using L(2) by linarith
    obtain c0 where c0: "ratio_percent_spec (Fin ci) (Fin T) = Inr c0" "0 \<le> c0" "c0 \<le> 100"
      using ratio_percent_ok [OF inf(4,5) Tpos] by blast
    obtain r0 where r0: "ratio_percent_spec (Fin ri) (Fin T) = Inr r0" "0 \<le> r0" "r0 \<le> 100"
      using ratio_percent_ok [OF inf(6,7) Tpos] by blast
    have "rounded_shares_spec tn vn cs cr = Inr (c0, r0)"
      using True inf(1,2,3) L(1) c0(1) r0(1)
      by (simp add: rounded_shares_spec_def Let_def both_def)
    then show ?thesis using c0(2,3) r0(2,3) by simp
  qed
  then obtain c0 r0 where first: "rounded_shares_spec tn vn cs cr = Inr (c0, r0)"
    "0 \<le> c0" "c0 \<le> 100" "0 \<le> r0" "r0 \<le> 100" by blast
  obtain c r where "rescaled_spec (c0, r0) = Inr (c, r)" "0 \<le> c" "0 \<le> r" "c + r \<le> 100"
    using rescaled_spec_ok [OF first(2-5)] by blast
  then show ?thesis using first(1) by (simp add: contribution_shares_eq_spec shares_spec_def)
qed

subsection \<open>The whole function on a reading inside its ranges\<close>

lemma calculate_aris_data_degraded:
  "calculate_aris_data None vibration temp corrosion_score change_rate
       flow_rate lube_health stress_in rul_in = Inr (0, 0, 0)"
  "clf (vibration, temp, corrosion_score, change_rate) = Inl e \<Longrightarrow>
   calculate_aris_data (Some clf) vibration temp corrosion_score change_rate
       flow_rate lube_health stress_in rul_in = Inr (0, 0, 0)"
  by (simp_all add: calculate_aris_data_def)

lemma valid_reading_normalized:
  assumes "valid_reading vibration temp corrosion_score change_rate
             flow_rate lube_health stress_in rul_in"
  shows "in_range 0 1 (fdiv (fsub temp (Fin 30)) (Fin 55))"
    and "in_range 0 1 (fdiv (fsub vibration (Fin 1)) (Fin 24))"
proof -
  have "in_range 30 (30 + 55) temp" using assms by (simp add: valid_reading_def)
  then show "in_range 0 1 (fdiv (fsub temp (Fin 30)) (Fin 55))"
    by (rule normalize_in_range) simp_all
  have "in_range 1 (1 + 24) vibration" using assms by (simp add: valid_reading_def)
  then show "in_range 0 1 (fdiv (fsub vibration (Fin 1)) (Fin 24))"
    by (rule normalize_in_range) simp_all
qed

lemma calculate_aris_data_valid:
  assumes "valid_reading vibration temp corrosion_score change_rate
             flow_rate lube_health stress_in rul_in"
    and "clf (vibration, temp, corrosion_score, change_rate) = Inr (Float (Fin p))"
    and "\<bar>p\<bar> \<le> 2 ^ 1000"
  shows "\<exists>z c r.
    fadd (Fin (of_int (nearest_even (round_f64 (p * 120)))))
      (extra_risk_points (fdiv (fsub temp (Fin 30)) (Fin 55))
         (fdiv (fsub vibration (Fin 1)) (Fin 24)) flow_rate lube_health stress_in rul_in)
      = Fin z \<and>
    (0 \<le> p \<longrightarrow> 0 \<le> z) \<and>
    contribution_shares (fdiv (fsub temp (Fin 30)) (Fin 55))
      (fdiv (fsub vibration (Fin 1)) (Fin 24)) corrosion_score change_rate = Inr (c, r) \<and>
    0 \<le> c \<and> 0 \<le> r \<and> c + r \<le> 100 \<and>
    calculate_aris_data (Some clf) vibration temp corrosion_score change_rate
        flow_rate lube_health stress_in rul_in = Inr (py_trunc (min 100 z), c, r)"
proof -
  let ?tn = "fdiv (fsub temp (Fin 30)) (Fin 55)"
  let ?vn = "fdiv (fsub vibration (Fin 1)) (Fin 24)"
  let ?points = "extra_risk_points ?tn ?vn flow_rate lube_health stress_in rul_in"
  have tn: "in_range 0 1 ?tn" and vn: "in_range 0 1 ?vn"
    using valid_reading_normalized [OF assms(1)] by simp_all
  have pts: "in_range 0 675 ?points"
    using tn vn assms(1) by (intro extra_risk_points_in_range) (simp_all add: valid_reading_def)
  obtain q where q: "representable q" "\<bar>q\<bar> \<le> 2 ^ 1007" "0 \<le> p \<longrightarrow> 0 \<le> q"
    "q = round_f64 (p * 120)" "base_score (Float (Fin p)) = Inr (nearest_even q)"
    using base_score_ok [OF assms(3)] by blast
  obtain z where z: "fadd (Fin (of_int (nearest_even q))) ?points = Fin z"
    "0 \<le> q \<longrightarrow> 0 \<le> z" "final_index (nearest_even q) ?points = Inr (py_trunc (min 100 z))"
    using final_index_ok [OF q(1,2) pts] by blast
  obtain c r where cr: "contribution_shares ?tn ?vn corrosion_score change_rate = Inr (c, r)"
    "0 \<le> c" "0 \<le> r" "c + r \<le> 100"
  proof -
    have "in_range (round_f64 (1 / 10)) 1 corrosion_score" "in_range 0 1 change_rate"
      using assms(1) by (simp_all add: valid_reading_def)
    then show ?thesis using valid_shares [OF tn vn] that by blast
  qed
  have "calculate_aris_data (Some clf) vibration temp corrosion_score change_rate
        flow_rate lube_health stress_in rul_in = Inr (py_trunc (min 100 z), c, r)"
    using assms(2) q(5) z(3) cr(1) by (simp add: calculate_aris_data_def Let_def)
  then show ?thesis using z(1,2) q(3,4) cr by auto
qed

subsection \<open>The points as a sum of terms\<close>



subsection \<open>Alerts\<close>

lemma messages_mem:
  "(LowFlowRate x \<in> set (messages flow_rate lube_health stress_in rul_in))
     = (x = flow_rate \<and> flt flow_rate (lit (7 / 10)))"
  "(HighFlowRate x \<in> set (messages flow_rate lube_health stress_in rul_in))
     = (x = flow_rate \<and> flt (lit (11 / 10)) flow_rate)"
  "(LowLubeHealth x \<in> set (messages flow_rate lube_health stress_in rul_in))
     = (x = lube_health \<and> flt lube_health (lit (4 / 10)))"
  "(HighStress x \<in> set (messages flow_rate lube_health stress_in rul_in))
     = (x = stress_in \<and> flt (lit (6 / 10)) stress_in)"
  "(LowRUL x \<in> set (messages flow_rate lube_health stress_in rul_in))
     = (x = rul_in \<and> flt rul_in (lit (3 / 10)))"
  unfolding messages_def Let_def by auto

lemma messages_empty:
  "(messages flow_rate lube_health stress_in rul_in = [])
     = (\<not> flt flow_rate (lit (7 / 10)) \<and> \<not> flt (lit (11 / 10)) flow_rate \<and>
        \<not> flt lube_health (lit (4 / 10)) \<and> \<not> flt (lit (6 / 10)) stress_in \<and>
        \<not> flt rul_in (lit (3 / 10)))"
  unfolding messages_def Let_def by auto

lemma extra_risk_points_by_alerts:
  "extra_risk_points tn vn flow_rate lube_health stress_in rul_in
     = points_by_alerts tn vn flow_rate lube_health stress_in rul_in"
  unfolding extra_risk_points_def points_by_alerts_def Let_def
  by (simp add: messages_mem)

subsection \<open>A crossed threshold alone gives points\<close>

lemma harmless_values:
  "\<not> flt (lit (3 / 10)) (Fin 0)" "\<not> flt (Fin 1) (lit (7 / 10))" "\<not> flt (lit (11 / 10)) (Fin 1)"
  "\<not> flt (Fin 1) (lit (4 / 10))" "\<not> flt (lit (6 / 10)) (Fin 0)" "\<not> flt (Fin 1) (lit (3 / 10))"
proof -
  obtain L3 where L3: "lit (3 / 10) = Fin L3" "0 \<le> L3" "L3 \<le> 1"
    using lit_in_range [of 0 "3 / 10" 1] by auto
  obtain L7 where L7: "lit (7 / 10) = Fin L7" "0 \<le> L7" "L7 \<le> 1"
    using lit_in_range [of 0 "7 / 10" 1] by auto
  obtain L11 where L11: "lit (11 / 10) = Fin L11" "1 \<le> L11" "L11 \<le> 2"
    using lit_in_range [of 1 "11 / 10" 2] by auto
  obtain L4 where L4: "lit (4 / 10) = Fin L4" "0 \<le> L4" "L4 \<le> 1"
    using lit_in_range [of 0 "4 / 10" 1] by auto
  obtain L6 where L6: "lit (6 / 10) = Fin L6" "0 \<le> L6" "L6 \<le> 1"
    using lit_in_range [of 0 "6 / 10" 1] by auto
  show "\<not> flt (lit (3 / 10)) (Fin 0)" "\<not> flt (Fin 1) (lit (7 / 10))"
    "\<not> flt (lit (11 / 10)) (Fin 1)" "\<not> flt (Fin 1) (lit (4 / 10))"
    "\<not> flt (lit (6 / 10)) (Fin 0)" "\<not> flt (Fin 1) (lit (3 / 10))"
    using L3 L7 L11 L4 L6 by simp_all
qed

lemma smallest_positive_pos: "0 < smallest_positive"
  by (simp add: smallest_positive_def)

lemma round_f64_smallest_positive: "round_f64 smallest_positive = smallest_positive"
proof -
  have "round_f64 (of_int 1 * 2 powi (- 1074)) = of_int 1 * 2 powi (- 1074)"
    by (rule round_f64_exact) simp_all
  then show ?thesis by (simp add: smallest_positive_def)
qed

lemma representable_multiple:
  assumes "representable x"
  shows "\<exists>n. x = of_int n * smallest_positive"
proof -
  obtain k j where j: "- 1074 \<le> j" and q: "round_f64 x = of_int k * 2 powi j"
    using round_f64_form [of x] by blast
  have x: "x = of_int k * 2 powi j" using assms q by (simp add: representable_def)
  have "(2::real) powi j = 2 powi ((j + 1074) + (- 1074))" by simp
  also have "\<dots> = 2 powi (j + 1074) * 2 powi (- 1074)" by (rule power_int_add) simp
  finally have "(2::real) powi j = 2 powi (j + 1074) * smallest_positive"
    by (simp only: smallest_positive_def)
  moreover have "(2::real) powi (j + 1074) = 2 ^ nat (j + 1074)"
    using j by (simp add: power_int_def)
  ultimately have "x = real_of_int (k * 2 ^ nat (j + 1074)) * smallest_positive"
    unfolding x by simp
  then show ?thesis by blast
qed

lemma representable_gap:
  assumes "representable a" and "representable b" and "b < a"
  shows "smallest_positive \<le> a - b"
proof -
  obtain m where m: "a = of_int m * smallest_positive"
    using representable_multiple [OF assms(1)] by blast
  obtain n where n: "b = of_int n * smallest_positive"
    using representable_multiple [OF assms(2)] by blast
  note pos = smallest_positive_pos
  have "real_of_int n * smallest_positive < real_of_int m * smallest_positive"
    using assms(3) m n by simp
  then have "real_of_int n < real_of_int m" using pos by (simp only: mult_less_cancel_right_pos)
  then have "n + 1 \<le> m" by linarith
  then have "1 \<le> real_of_int (m - n)" by linarith
  then have "1 * smallest_positive \<le> real_of_int (m - n) * smallest_positive"
    using pos by (intro mult_right_mono) simp_all
  then show ?thesis unfolding m n by (simp add: algebra_simps)
qed

lemma to_f64_positive:
  assumes "smallest_positive \<le> x"
  shows "(\<exists>z. to_f64 x = Fin z \<and> smallest_positive \<le> z) \<or> to_f64 x = PInf"
proof -
  have "round_f64 smallest_positive \<le> round_f64 x" using assms by (rule round_f64_mono)
  then have ge: "smallest_positive \<le> round_f64 x"
    by (simp only: round_f64_smallest_positive)
  note pos = smallest_positive_pos
  show ?thesis
  proof (cases "2 ^ 1024 \<le> round_f64 x")
    case True
    then show ?thesis by (simp add: to_f64_def Let_def)
  next
    case False
    moreover have "\<not> round_f64 x \<le> - (2 ^ 1024)"
    proof
      assume "round_f64 x \<le> - (2 ^ 1024)"
      moreover have "(0::real) < 2 ^ 1024" by simp
      ultimately show False using ge pos by linarith
    qed
    ultimately have "to_f64 x = Fin (round_f64 x)" by (simp add: to_f64_def Let_def)
    then show ?thesis using ge by blast
  qed
qed

lemma term_nonzero:
  assumes "is_f64 hi" and "is_f64 lo" and "flt lo hi" and "1 \<le> K"
  shows "fadd (Fin 0) (fmul (fsub hi lo) (Fin K)) \<noteq> Fin 0"
proof -
  have Kpos: "0 < K" "\<not> K < 0" "K \<noteq> 0" using assms(4) by simp_all
  note pos = smallest_positive_pos
  have inf: "fadd (Fin 0) (fmul PInf (Fin K)) \<noteq> Fin 0"
    using Kpos by (simp add: signed_inf_def)
  have fin: "fadd (Fin 0) (fmul (to_f64 d) (Fin K)) \<noteq> Fin 0" if d: "smallest_positive \<le> d" for d
  proof -
    consider z where "to_f64 d = Fin z" "smallest_positive \<le> z" | "to_f64 d = PInf"
      using to_f64_positive [OF d] by blast
    then show ?thesis
    proof cases
      case 1
      have z0: "0 \<le> z" using 1(2) pos by linarith
      have "z * 1 \<le> z * K" using assms(4) z0 by (rule mult_left_mono)
      then have "smallest_positive \<le> z * K" using 1(2) by simp
      then consider m where "to_f64 (z * K) = Fin m" "smallest_positive \<le> m"
        | "to_f64 (z * K) = PInf"
        using to_f64_positive by blast
      then show ?thesis
      proof cases
        case (1 m)
        have "is_f64 (to_f64 (z * K))" by simp
        then have "fadd (Fin 0) (to_f64 (z * K)) = to_f64 (z * K)" by (rule fadd_zero_left)
        moreover have "m \<noteq> 0" using 1(2) pos by linarith
        ultimately show ?thesis using \<open>to_f64 d = Fin z\<close> 1(1) by simp
      next
        case 2
        then show ?thesis using \<open>to_f64 d = Fin z\<close> by simp
      qed
    next
      case 2
      then show ?thesis using inf by simp
    qed
  qed
  show ?thesis
  proof (cases hi)
    case (Fin a)
    show ?thesis
    proof (cases lo)
      case (Fin b)
      have "representable a" "representable b" "b < a"
        using assms(1,2,3) \<open>hi = Fin a\<close> Fin by (simp_all add: is_f64_def)
      then have "smallest_positive \<le> a - b" by (rule representable_gap)
      then show ?thesis using fin \<open>hi = Fin a\<close> Fin by simp
    next
      case NInf
      then show ?thesis using inf \<open>hi = Fin a\<close> by simp
    next
      case PInf
      then show ?thesis using assms(3) \<open>hi = Fin a\<close> by simp
    next
      case NaN
      then show ?thesis using assms(3) \<open>hi = Fin a\<close> by simp
    qed
  next
    case PInf
    then show ?thesis using inf assms(3) by (cases lo) simp_all
  next
    case NInf
    then show ?thesis using assms(3) by (cases lo) simp_all
  next
    case NaN
    then show ?thesis using assms(3) by (cases lo) simp_all
  qed
qed

lemma factor_alone:
  assumes "is_f64 v"
  shows "(flt v (lit (7 / 10)) \<or> flt (lit (11 / 10)) v)
      = (extra_risk_points (Fin 0) (Fin 0) v (Fin 1) (Fin 0) (Fin 1) \<noteq> Fin 0)"
    and "flt v (lit (4 / 10))
      = (extra_risk_points (Fin 0) (Fin 0) (Fin 1) v (Fin 0) (Fin 1) \<noteq> Fin 0)"
    and "flt (lit (6 / 10)) v
      = (extra_risk_points (Fin 0) (Fin 0) (Fin 1) (Fin 1) v (Fin 1) \<noteq> Fin 0)"
    and "flt v (lit (3 / 10))
      = (extra_risk_points (Fin 0) (Fin 0) (Fin 1) (Fin 1) (Fin 0) v \<noteq> Fin 0)"
  using assms harmless_values
    term_nonzero [of "lit (7 / 10)" v 50] term_nonzero [of v "lit (11 / 10)" 75]
    term_nonzero [of "lit (4 / 10)" v 100] term_nonzero [of v "lit (6 / 10)" 80]
    term_nonzero [of "lit (3 / 10)" v 120]
  unfolding extra_risk_points_def Let_def by auto

subsection \<open>Evaluation\<close>

text \<open>The equations that compute the model on a concrete reading.\<close>

lemmas f64_eval = lit_def to_f64_def round_f64_def quantum_def binade_def compute_bitlen
  nearest_even_def Let_def

lemmas aris_eval = calculate_aris_data_def base_score_def final_index_def
  extra_risk_points_def contribution_shares_def total_dynamic_influence_def
  corrosion_influence_def rate_influence_def temp_vib_influence_def py_truediv_def
  float_of_int_def int_truediv_def signed_inf_def py_trunc_def

subsection \<open>Overflow\<close>





subsection \<open>A threshold that is not crossed\<close>

lemma uncrossed_threshold_adds_nothing:
  "\<not> flt flow_rate (lit (7 / 10)) \<Longrightarrow> \<not> flt (lit (11 / 10)) flow_rate \<Longrightarrow>
   extra_risk_points tn vn flow_rate lube_health stress_in rul_in
     = extra_risk_points tn vn (Fin 1) lube_health stress_in rul_in"
  "\<not> flt lube_health (lit (4 / 10)) \<Longrightarrow>
   extra_risk_points tn vn flow_rate lube_health stress_in rul_in
     = extra_risk_points tn vn flow_rate (Fin 1) stress_in rul_in"
  "\<not> flt (lit (6 / 10)) stress_in \<Longrightarrow>
   extra_risk_points tn vn flow_rate lube_health stress_in rul_in
     = extra_risk_points tn vn flow_rate lube_health (Fin 0) rul_in"
  "\<not> flt rul_in (lit (3 / 10)) \<Longrightarrow>
   extra_risk_points tn vn flow_rate lube_health stress_in rul_in
     = extra_risk_points tn vn flow_rate lube_health stress_in (Fin 1)"
  using harmless_values unfolding extra_risk_points_def Let_def by simp_all

lemma explain_risk_sub_causes:
  "(rep_sub_causes (explain_risk risk_index corr_contrib rate_contrib vibration_in
        flow_rate lube_health stress_in rul_in) = NoCriticalNotes)
     = (messages flow_rate lube_health stress_in rul_in = [])"
  "(rep_sub_causes (explain_risk risk_index corr_contrib rate_contrib vibration_in
        flow_rate lube_health stress_in rul_in)
      = Items (messages flow_rate lube_health stress_in rul_in))
     = (messages flow_rate lube_health stress_in rul_in \<noteq> [])"
  by (simp_all add: explain_risk_def show_messages_def)

subsection \<open>The guarded divisions\<close>








section \<open>The claims\<close>

text \<open>
  The readings of the examples are written as the source would read them, by their
  decimal literals. The scenario of the specification is the reading with vibration 7,
  temperature 55, corrosion score 0.2, change rate 0.15, flow rate 1, lubrication health
  0.8, stress 0.4 and remaining life 0.7, on which the classifier answers 0.1.
\<close>

subsection \<open>C1: the range of the risk index\<close>

text \<open>
  C1: for every reading inside its ranges and every probability \<open>p\<close> the classifier
  answers, \<^verbatim>\<open>calculate_aris_data\<close> returns a risk index that is an integer between 0
  and 100. The upper bound is the clamp of line 79; the lower bound holds because the
  answer is not negative and no term of the augmenter is. The answer may be any real
  from 0 up to \<open>2 ^ 1000\<close>, which covers every probability.
\<close>

theorem risk_index_in_range:
  assumes "valid_reading vibration temp corrosion_score change_rate
             flow_rate lube_health stress_in rul_in"
    and "clf (vibration, temp, corrosion_score, change_rate) = Inr (Float (Fin p))"
    and "0 \<le> p" and "p \<le> 2 ^ 1000"
  shows "\<exists>risk_index c r.
    calculate_aris_data (Some clf) vibration temp corrosion_score change_rate
        flow_rate lube_health stress_in rul_in = Inr (risk_index, c, r) \<and>
    0 \<le> risk_index \<and> risk_index \<le> 100"
proof -
  have "\<bar>p\<bar> \<le> 2 ^ 1000" using assms(3,4) by simp
  then obtain z c r where z: "0 \<le> p \<longrightarrow> 0 \<le> z"
    and res: "calculate_aris_data (Some clf) vibration temp corrosion_score change_rate
        flow_rate lube_health stress_in rul_in = Inr (py_trunc (min 100 z), c, r)"
    using assms(1,2)
      calculate_aris_data_valid [of vibration temp corrosion_score change_rate
        flow_rate lube_health stress_in rul_in clf p]
    by blast
  have "0 \<le> z" using z assms(3) by simp
  then have "0 \<le> py_trunc (min 100 z)" by (rule py_trunc_min_100(2))
  moreover have "py_trunc (min 100 z) \<le> 100" by (rule py_trunc_min_100(1))
  ultimately show ?thesis using res by simp
qed

text \<open>
  The scenario of the specification gives the index 35; the float \<^verbatim>\<open>0.1\<close> that the
  classifier answers is the fraction below.
\<close>

theorem risk_index_in_range_witness:
  "valid_reading (lit 7) (lit 55) (lit (2 / 10)) (lit (15 / 100))
       (lit 1) (lit (8 / 10)) (lit (4 / 10)) (lit (7 / 10)) \<and>
   fixed_classifier (1 / 10) (lit 7, lit 55, lit (2 / 10), lit (15 / 100))
     = Inr (Float (Fin (3602879701896397 / 36028797018963968))) \<and>
   (\<exists>risk_index c r.
      calculate_aris_data (Some (fixed_classifier (1 / 10))) (lit 7) (lit 55) (lit (2 / 10))
          (lit (15 / 100)) (lit 1) (lit (8 / 10)) (lit (4 / 10)) (lit (7 / 10))
        = Inr (risk_index, c, r) \<and> 0 \<le> risk_index \<and> risk_index \<le> 100) \<and>
   calculate_aris_data (Some (fixed_classifier (1 / 10))) (lit 7) (lit 55) (lit (2 / 10))
       (lit (15 / 100)) (lit 1) (lit (8 / 10)) (lit (4 / 10)) (lit (7 / 10))
     = Inr (35, 31, 37)"
proof -
  have v: "valid_reading (lit 7) (lit 55) (lit (2 / 10)) (lit (15 / 100))
       (lit 1) (lit (8 / 10)) (lit (4 / 10)) (lit (7 / 10))"
    by (simp add: valid_reading_def in_range_def f64_eval)
  have a: "fixed_classifier (1 / 10) (lit 7, lit 55, lit (2 / 10), lit (15 / 100))
     = Inr (Float (Fin (3602879701896397 / 36028797018963968)))"
    by (simp add: f64_eval)
  have e: "calculate_aris_data (Some (fixed_classifier (1 / 10))) (lit 7) (lit 55)
       (lit (2 / 10)) (lit (15 / 100)) (lit 1) (lit (8 / 10)) (lit (4 / 10)) (lit (7 / 10))
     = Inr (35, 31, 37)"
    by (simp add: f64_eval aris_eval)
  have "\<exists>risk_index c r.
      calculate_aris_data (Some (fixed_classifier (1 / 10))) (lit 7) (lit 55) (lit (2 / 10))
          (lit (15 / 100)) (lit 1) (lit (8 / 10)) (lit (4 / 10)) (lit (7 / 10))
        = Inr (risk_index, c, r) \<and> 0 \<le> risk_index \<and> risk_index \<le> 100"
    using v a
      risk_index_in_range [of "lit 7" "lit 55" "lit (2 / 10)" "lit (15 / 100)"
        "lit 1" "lit (8 / 10)" "lit (4 / 10)" "lit (7 / 10)" "fixed_classifier (1 / 10)"
        "3602879701896397 / 36028797018963968"]
    by simp
  then show ?thesis using v a e by blast
qed

text \<open>
  The lower bound rests on the answer: on the same reading an answer of \<open>- 1\<close>, which is
  no probability, gives the index \<open>- 96\<close>, since line 79 clamps from above only.
\<close>

lemma negative_answer_gives_negative_index:
  "calculate_aris_data (Some (fixed_classifier (- 1))) (lit 7) (lit 55) (lit (2 / 10))
       (lit (15 / 100)) (lit 1) (lit (8 / 10)) (lit (4 / 10)) (lit (7 / 10))
     = Inr (- 96, 31, 37)"
  by (simp add: f64_eval aris_eval)

subsection \<open>C2: the degraded result\<close>

text \<open>
  C2 as it is worded has the degraded result carry a marker that tells it from a
  genuine index of 0. The function returns the bare tuple \<^verbatim>\<open>(0, 0, 0)\<close> (lines 32 and
  40), and a successful assessment can return the same tuple: a reading inside its
  ranges with corrosion score 0.1 and change rate 0, on which the classifier answers
  probability 0, gives the result of a missing model and of a failed prediction.
\<close>

theorem degraded_same_as_zero_risk_counterexample:
  "valid_reading (lit 5) (lit 40) (lit (1 / 10)) (lit 0)
       (lit 1) (lit (8 / 10)) (lit (4 / 10)) (lit (7 / 10)) \<and>
   calculate_aris_data (Some (fixed_classifier 0)) (lit 5) (lit 40) (lit (1 / 10)) (lit 0)
       (lit 1) (lit (8 / 10)) (lit (4 / 10)) (lit (7 / 10))
     = calculate_aris_data None (lit 5) (lit 40) (lit (1 / 10)) (lit 0)
       (lit 1) (lit (8 / 10)) (lit (4 / 10)) (lit (7 / 10)) \<and>
   calculate_aris_data (Some (fixed_classifier 0)) (lit 5) (lit 40) (lit (1 / 10)) (lit 0)
       (lit 1) (lit (8 / 10)) (lit (4 / 10)) (lit (7 / 10))
     = calculate_aris_data (Some failing_classifier) (lit 5) (lit 40) (lit (1 / 10)) (lit 0)
       (lit 1) (lit (8 / 10)) (lit (4 / 10)) (lit (7 / 10))"
proof -
  have v: "valid_reading (lit 5) (lit 40) (lit (1 / 10)) (lit 0)
       (lit 1) (lit (8 / 10)) (lit (4 / 10)) (lit (7 / 10))"
    by (simp add: valid_reading_def in_range_def f64_eval)
  have e: "calculate_aris_data (Some (fixed_classifier 0)) (lit 5) (lit 40) (lit (1 / 10))
       (lit 0) (lit 1) (lit (8 / 10)) (lit (4 / 10)) (lit (7 / 10)) = Inr (0, 0, 0)"
    by (simp add: f64_eval aris_eval)
  show ?thesis using v e by (simp add: calculate_aris_data_degraded)
qed

text \<open>
  C2, amended: when the model is \<^verbatim>\<open>None\<close>, or the prediction call raises,
  \<^verbatim>\<open>calculate_aris_data\<close> returns the tuple \<^verbatim>\<open>(0, 0, 0)\<close> (risk index 0, both shares 0)
  and raises nothing; the tuple carries no marker.
\<close>

theorem degraded_returns_zeros:
  "calculate_aris_data None vibration temp corrosion_score change_rate
       flow_rate lube_health stress_in rul_in = Inr (0, 0, 0) \<and>
   (clf (vibration, temp, corrosion_score, change_rate) = Inl e \<longrightarrow>
    calculate_aris_data (Some clf) vibration temp corrosion_score change_rate
       flow_rate lube_health stress_in rul_in = Inr (0, 0, 0))"
  by (simp add: calculate_aris_data_degraded)

theorem degraded_returns_zeros_witness:
  "failing_classifier (lit 7, lit 55, lit (2 / 10), lit (15 / 100)) = Inl PredictionError \<and>
   calculate_aris_data None (lit 7) (lit 55) (lit (2 / 10)) (lit (15 / 100))
       (lit 1) (lit (8 / 10)) (lit (4 / 10)) (lit (7 / 10)) = Inr (0, 0, 0) \<and>
   calculate_aris_data (Some failing_classifier) (lit 7) (lit 55) (lit (2 / 10))
       (lit (15 / 100)) (lit 1) (lit (8 / 10)) (lit (4 / 10)) (lit (7 / 10)) = Inr (0, 0, 0)"
  using degraded_returns_zeros [of "lit 7" "lit 55" "lit (2 / 10)" "lit (15 / 100)"
      "lit 1" "lit (8 / 10)" "lit (4 / 10)" "lit (7 / 10)" failing_classifier PredictionError]
  by simp

subsection \<open>C3: the contribution shares\<close>

text \<open>
  C3: for every reading inside its ranges, and for every model that is missing, raises
  or answers a float of magnitude at most \<open>2 ^ 1000\<close>, \<^verbatim>\<open>calculate_aris_data\<close> returns a
  corrosion share and a rate share that, with the mechanical share \<^verbatim>\<open>explain_risk\<close>
  derives from them (100 minus both, at least 0), are integers between 0 and 100 whose
  sum is at most 100. After a successful prediction the two shares are the rounded
  influence ratios, rescaled only when they add up to more than 100 (rounding first,
  rescaling second), or the defaults 45 and 40 when the total influence is at most
  0.01; a degraded call returns the shares 0 and 0.
\<close>

theorem shares_in_range:
  assumes "valid_reading vibration temp corrosion_score change_rate
             flow_rate lube_health stress_in rul_in"
    and "answers_within model (vibration, temp, corrosion_score, change_rate)"
  shows "\<exists>risk_index c r.
    calculate_aris_data model vibration temp corrosion_score change_rate
        flow_rate lube_health stress_in rul_in = Inr (risk_index, c, r) \<and>
    Inr (c, r) = (case model of
                None \<Rightarrow> Inr (0, 0)
              | Some clf \<Rightarrow>
                  (case clf (vibration, temp, corrosion_score, change_rate) of
                     Inl e \<Rightarrow> Inr (0, 0)
                   | Inr p \<Rightarrow> shares_spec (fdiv (fsub temp (Fin 30)) (Fin 55))
                               (fdiv (fsub vibration (Fin 1)) (Fin 24))
                               corrosion_score change_rate)) \<and>
    0 \<le> c \<and> c \<le> 100 \<and> 0 \<le> r \<and> r \<le> 100 \<and>
    0 \<le> vib_temp_contrib c r \<and> vib_temp_contrib c r \<le> 100 \<and>
    c + r + vib_temp_contrib c r \<le> 100"
proof -
  have zero: "vib_temp_contrib 0 0 = 100" by (simp add: vib_temp_contrib_def)
  show ?thesis
  proof (cases model)
    case None
    then show ?thesis by (simp add: calculate_aris_data_degraded(1) zero)
  next
    case (Some clf)
    show ?thesis
    proof (cases "clf (vibration, temp, corrosion_score, change_rate)")
      case (Inl e)
      then show ?thesis using Some by (simp add: calculate_aris_data_degraded(2) zero)
    next
      case (Inr obj)
      then obtain p where p: "obj = Float (Fin p)" "\<bar>p\<bar> \<le> 2 ^ 1000"
        using assms(2) Some
        by (auto simp: answers_within_def split: py_object.splits pyfloat.splits)
      have ans: "clf (vibration, temp, corrosion_score, change_rate) = Inr (Float (Fin p))"
        using Inr p(1) by simp
      obtain z c r where cr: "contribution_shares (fdiv (fsub temp (Fin 30)) (Fin 55))
          (fdiv (fsub vibration (Fin 1)) (Fin 24)) corrosion_score change_rate = Inr (c, r)"
        and b: "0 \<le> c" "0 \<le> r" "c + r \<le> 100"
        and res: "calculate_aris_data (Some clf) vibration temp corrosion_score change_rate
          flow_rate lube_health stress_in rul_in = Inr (py_trunc (min 100 z), c, r)"
        using assms(1) ans p(2)
          calculate_aris_data_valid [of vibration temp corrosion_score change_rate
            flow_rate lube_health stress_in rul_in clf p]
        by blast
      have v: "vib_temp_contrib c r = 100 - c - r"
        using b by (simp add: vib_temp_contrib_def Let_def)
      have sp: "shares_spec (fdiv (fsub temp (Fin 30)) (Fin 55))
          (fdiv (fsub vibration (Fin 1)) (Fin 24)) corrosion_score change_rate = Inr (c, r)"
        using cr by (simp add: contribution_shares_eq_spec)
      show ?thesis using Some ans res sp b v by simp
    qed
  qed
qed

text \<open>
  The scenario of the specification gives the shares 31, 37 and 32. The reading with
  vibration 17, temperature 34.4, corrosion score 0.18 and change rate 0.4 gives 16, 63
  and 21: its rate ratio, a little above 62.5 per cent in floats, is rounded up. On the
  reading with vibration 1, temperature 30, corrosion score 0.14 and change rate 0.35,
  which is inside its ranges, the rounded ratios 13 and 88 add up to 101 and are
  rescaled to the shares 13 and 87.
\<close>

theorem shares_in_range_witness:
  "valid_reading (lit 1) (lit 30) (lit (14 / 100)) (lit (35 / 100))
       (lit 1) (lit (8 / 10)) (lit (4 / 10)) (lit (7 / 10)) \<and>
   answers_within (Some (fixed_classifier (1 / 10)))
       (lit 1, lit 30, lit (14 / 100), lit (35 / 100)) \<and>
   rounded_shares_spec (fdiv (fsub (lit 30) (Fin 30)) (Fin 55))
       (fdiv (fsub (lit 1) (Fin 1)) (Fin 24)) (lit (14 / 100)) (lit (35 / 100))
     = Inr (13, 88) \<and>
   shares_spec (fdiv (fsub (lit 30) (Fin 30)) (Fin 55))
       (fdiv (fsub (lit 1) (Fin 1)) (Fin 24)) (lit (14 / 100)) (lit (35 / 100))
     = Inr (13, 87) \<and>
   calculate_aris_data (Some (fixed_classifier (1 / 10))) (lit 1) (lit 30) (lit (14 / 100))
       (lit (35 / 100)) (lit 1) (lit (8 / 10)) (lit (4 / 10)) (lit (7 / 10))
     = Inr (12, 13, 87) \<and>
   vib_temp_contrib 13 87 = 0 \<and>
   calculate_aris_data (Some (fixed_classifier (1 / 10))) (lit 17) (lit (344 / 10))
       (lit (18 / 100)) (lit (4 / 10)) (lit 1) (lit (8 / 10)) (lit (4 / 10)) (lit (7 / 10))
     = Inr (67, 16, 63) \<and>
   vib_temp_contrib 16 63 = 21 \<and>
   calculate_aris_data (Some (fixed_classifier (1 / 10))) (lit 7) (lit 55) (lit (2 / 10))
       (lit (15 / 100)) (lit 1) (lit (8 / 10)) (lit (4 / 10)) (lit (7 / 10))
     = Inr (35, 31, 37) \<and>
   vib_temp_contrib 31 37 = 32"
proof -
  have v: "valid_reading (lit 1) (lit 30) (lit (14 / 100)) (lit (35 / 100))
       (lit 1) (lit (8 / 10)) (lit (4 / 10)) (lit (7 / 10))"
    by (simp add: valid_reading_def in_range_def f64_eval)
  have a: "answers_within (Some (fixed_classifier (1 / 10)))
       (lit 1, lit 30, lit (14 / 100), lit (35 / 100))"
    by (simp add: answers_within_def f64_eval)
  have r: "rounded_shares_spec (fdiv (fsub (lit 30) (Fin 30)) (Fin 55))
       (fdiv (fsub (lit 1) (Fin 1)) (Fin 24)) (lit (14 / 100)) (lit (35 / 100))
     = Inr (13, 88)"
    by (simp add: rounded_shares_spec_def ratio_percent_spec_def both_def f64_eval aris_eval)
  have e1: "calculate_aris_data (Some (fixed_classifier (1 / 10))) (lit 1) (lit 30)
       (lit (14 / 100)) (lit (35 / 100)) (lit 1) (lit (8 / 10)) (lit (4 / 10)) (lit (7 / 10))
     = Inr (12, 13, 87)"
    by (simp add: f64_eval aris_eval)
  have e2: "calculate_aris_data (Some (fixed_classifier (1 / 10))) (lit 17) (lit (344 / 10))
       (lit (18 / 100)) (lit (4 / 10)) (lit 1) (lit (8 / 10)) (lit (4 / 10)) (lit (7 / 10))
     = Inr (67, 16, 63)"
    by (simp add: f64_eval aris_eval)
  have e3: "calculate_aris_data (Some (fixed_classifier (1 / 10))) (lit 7) (lit 55)
       (lit (2 / 10)) (lit (15 / 100)) (lit 1) (lit (8 / 10)) (lit (4 / 10)) (lit (7 / 10))
     = Inr (35, 31, 37)"
    by (simp add: f64_eval aris_eval)
  have w: "vib_temp_contrib 13 87 = 0" "vib_temp_contrib 16 63 = 21"
    "vib_temp_contrib 31 37 = 32"
    by (simp_all add: vib_temp_contrib_def)
  have s: "shares_spec (fdiv (fsub (lit 30) (Fin 30)) (Fin 55))
       (fdiv (fsub (lit 1) (Fin 1)) (Fin 24)) (lit (14 / 100)) (lit (35 / 100))
     = Inr (13, 87)"
    using shares_in_range [OF v a] e1 by auto
  show ?thesis using v a r s e1 e2 e3 w by simp
qed

subsection \<open>C4: base score and final index\<close>

text \<open>
  C4: when the prediction on a reading inside its ranges succeeds with probability
  \<open>p\<close>, the base score is \<^verbatim>\<open>round(p * 120)\<close>, and the risk index is the minimum of 100
  and the float sum \<open>z\<close> of the base score and the points of the augmenter, truncated to
  an integer. Here \<open>p\<close> is any real of magnitude at most \<open>2 ^ 1000\<close>.
\<close>

theorem risk_index_formula:
  assumes "valid_reading vibration temp corrosion_score change_rate
             flow_rate lube_health stress_in rul_in"
    and "clf (vibration, temp, corrosion_score, change_rate) = Inr (Float (Fin p))"
    and "\<bar>p\<bar> \<le> 2 ^ 1000"
  shows "\<exists>base z c r.
    py_round (fmul (Fin p) (Fin 120)) = Inr base \<and>
    fadd (Fin (of_int base))
      (extra_risk_points (fdiv (fsub temp (Fin 30)) (Fin 55))
         (fdiv (fsub vibration (Fin 1)) (Fin 24)) flow_rate lube_health stress_in rul_in)
      = Fin z \<and>
    calculate_aris_data (Some clf) vibration temp corrosion_score change_rate
        flow_rate lube_health stress_in rul_in = Inr (py_trunc (min 100 z), c, r)"
proof -
  obtain q where q: "fmul (Fin p) (Fin 120) = Fin q" "q = round_f64 (p * 120)"
    using base_score_ok [OF assms(3)] by blast
  obtain z c r where z: "fadd (Fin (of_int (nearest_even (round_f64 (p * 120)))))
      (extra_risk_points (fdiv (fsub temp (Fin 30)) (Fin 55))
         (fdiv (fsub vibration (Fin 1)) (Fin 24)) flow_rate lube_health stress_in rul_in)
      = Fin z"
    and res: "calculate_aris_data (Some clf) vibration temp corrosion_score change_rate
        flow_rate lube_health stress_in rul_in = Inr (py_trunc (min 100 z), c, r)"
    using assms
      calculate_aris_data_valid [of vibration temp corrosion_score change_rate
        flow_rate lube_health stress_in rul_in clf p]
    by blast
  have "py_round (fmul (Fin p) (Fin 120)) = Inr (nearest_even (round_f64 (p * 120)))"
    using q by simp
  then show ?thesis using z res by blast
qed

text \<open>
  The reading with vibration 1, temperature 30, stress 0.7 and remaining life 0.2, on
  which the classifier answers 0.25: the base score is 30, the points of the augmenter
  are 19.999999999999993 in floats, the sum is the float next below 50, and the index
  is 49.
\<close>

theorem risk_index_formula_witness:
  "valid_reading (lit 1) (lit 30) (lit (55 / 100)) (lit (5 / 10))
       (lit 1) (lit (8 / 10)) (lit (7 / 10)) (lit (2 / 10)) \<and>
   fixed_classifier (25 / 100) (lit 1, lit 30, lit (55 / 100), lit (5 / 10))
     = Inr (Float (Fin (1 / 4))) \<and>
   py_round (fmul (Fin (1 / 4)) (Fin 120)) = Inr 30 \<and>
   extra_risk_points (fdiv (fsub (lit 30) (Fin 30)) (Fin 55))
       (fdiv (fsub (lit 1) (Fin 1)) (Fin 24)) (lit 1) (lit (8 / 10)) (lit (7 / 10))
       (lit (2 / 10))
     = Fin (2814749767106559 / 140737488355328) \<and>
   fadd (Fin (of_int 30)) (Fin (2814749767106559 / 140737488355328))
     = Fin (7036874417766399 / 140737488355328) \<and>
   py_trunc (min 100 (7036874417766399 / 140737488355328)) = 49 \<and>
   calculate_aris_data (Some (fixed_classifier (25 / 100))) (lit 1) (lit 30) (lit (55 / 100))
       (lit (5 / 10)) (lit 1) (lit (8 / 10)) (lit (7 / 10)) (lit (2 / 10))
     = Inr (49, 53, 47)"
proof -
  have v: "valid_reading (lit 1) (lit 30) (lit (55 / 100)) (lit (5 / 10))
       (lit 1) (lit (8 / 10)) (lit (7 / 10)) (lit (2 / 10))"
    by (simp add: valid_reading_def in_range_def f64_eval)
  have a: "fixed_classifier (25 / 100) (lit 1, lit 30, lit (55 / 100), lit (5 / 10))
     = Inr (Float (Fin (1 / 4)))"
    by (simp add: f64_eval)
  have b: "py_round (fmul (Fin (1 / 4)) (Fin 120)) = Inr 30"
    by (simp add: f64_eval)
  have x: "extra_risk_points (fdiv (fsub (lit 30) (Fin 30)) (Fin 55))
       (fdiv (fsub (lit 1) (Fin 1)) (Fin 24)) (lit 1) (lit (8 / 10)) (lit (7 / 10))
       (lit (2 / 10))
     = Fin (2814749767106559 / 140737488355328)"
    by (simp add: f64_eval extra_risk_points_def)
  have s: "fadd (Fin (of_int 30)) (Fin (2814749767106559 / 140737488355328))
     = Fin (7036874417766399 / 140737488355328)"
    by (simp add: f64_eval)
  have t: "py_trunc (min 100 (7036874417766399 / 140737488355328)) = 49"
    by (simp add: py_trunc_def)
  have e: "calculate_aris_data (Some (fixed_classifier (25 / 100))) (lit 1) (lit 30)
       (lit (55 / 100)) (lit (5 / 10)) (lit 1) (lit (8 / 10)) (lit (7 / 10)) (lit (2 / 10))
     = Inr (49, 53, 47)"
    by (simp add: f64_eval aris_eval)
  have p: "\<bar>1 / 4 :: real\<bar> \<le> 2 ^ 1000" by simp
  obtain base z c r where h1: "py_round (fmul (Fin (1 / 4)) (Fin 120)) = Inr base"
    and h2: "fadd (Fin (of_int base))
        (extra_risk_points (fdiv (fsub (lit 30) (Fin 30)) (Fin 55))
           (fdiv (fsub (lit 1) (Fin 1)) (Fin 24)) (lit 1) (lit (8 / 10)) (lit (7 / 10))
           (lit (2 / 10))) = Fin z"
    and h3: "calculate_aris_data (Some (fixed_classifier (25 / 100))) (lit 1) (lit 30)
       (lit (55 / 100)) (lit (5 / 10)) (lit 1) (lit (8 / 10)) (lit (7 / 10)) (lit (2 / 10))
     = Inr (py_trunc (min 100 z), c, r)"
    using risk_index_formula [of "lit 1" "lit 30" "lit (55 / 100)" "lit (5 / 10)"
        "lit 1" "lit (8 / 10)" "lit (7 / 10)" "lit (2 / 10)" "fixed_classifier (25 / 100)"
        "1 / 4", OF v a p]
    by blast
  have base: "base = 30" using h1 unfolding b by simp
  have zv: "z = 7036874417766399 / 140737488355328" using h2 unfolding x base s by simp
  have i: "calculate_aris_data (Some (fixed_classifier (25 / 100))) (lit 1) (lit 30)
       (lit (55 / 100)) (lit (5 / 10)) (lit 1) (lit (8 / 10)) (lit (7 / 10)) (lit (2 / 10))
     = Inr (49, c, r)"
    using h3 unfolding zv t .
  show ?thesis using v a b x s t e i by simp
qed

subsection \<open>C5: the heuristic augmentation\<close>



subsection \<open>C6: the tiers\<close>



subsection \<open>C7: the main cause\<close>

text \<open>
  C7: the main cause printed by lines 234-239 is the category with the largest of the
  three shares corrosion, mechanical (100 minus the two others, at least 0) and rate;
  among equal shares corrosion comes before mechanical and mechanical before rate. So
  corrosion is chosen when no share is larger, mechanical when it is larger than
  corrosion and not smaller than rate, rate when it is larger than both. The share
  printed with the cause is the largest one.
\<close>

theorem main_cause_largest_share:
  "(fst (main_cause corr_contrib rate_contrib) = Corrosion) =
     (vib_temp_contrib corr_contrib rate_contrib \<le> corr_contrib \<and>
      rate_contrib \<le> corr_contrib) \<and>
   (fst (main_cause corr_contrib rate_contrib) = Mechanical) =
     (corr_contrib < vib_temp_contrib corr_contrib rate_contrib \<and>
      rate_contrib \<le> vib_temp_contrib corr_contrib rate_contrib) \<and>
   (fst (main_cause corr_contrib rate_contrib) = RateOfDegradation) =
     (corr_contrib < rate_contrib \<and>
      vib_temp_contrib corr_contrib rate_contrib < rate_contrib) \<and>
   snd (main_cause corr_contrib rate_contrib) =
     max corr_contrib (max (vib_temp_contrib corr_contrib rate_contrib) rate_contrib) \<and>
   snd (main_cause corr_contrib rate_contrib) =
     (case fst (main_cause corr_contrib rate_contrib) of
        Corrosion \<Rightarrow> corr_contrib
      | Mechanical \<Rightarrow> vib_temp_contrib corr_contrib rate_contrib
      | RateOfDegradation \<Rightarrow> rate_contrib) \<and>
   vib_temp_contrib corr_contrib rate_contrib = max 0 (100 - corr_contrib - rate_contrib) \<and>
   rep_main_cause (explain_risk risk_index corr_contrib rate_contrib vibration_in
       flow_rate lube_health stress_in rul_in) = main_cause corr_contrib rate_contrib"
  unfolding main_cause_def explain_risk_def vib_temp_contrib_def Let_def by auto

text \<open>
  The shares 31 and 37 of the specification's scenario, and the three ties: 40/20
  (corrosion and mechanical), 40/40 (corrosion and rate), 20/40 (mechanical and rate).
\<close>

theorem main_cause_largest_share_witness:
  "fst (main_cause 31 37) = RateOfDegradation \<and> snd (main_cause 31 37) = 37 \<and>
   fst (main_cause 40 20) = Corrosion \<and> snd (main_cause 40 20) = 40 \<and>
   fst (main_cause 40 40) = Corrosion \<and> snd (main_cause 40 40) = 40 \<and>
   fst (main_cause 20 40) = Mechanical \<and> snd (main_cause 20 40) = 40 \<and>
   fst (main_cause 10 20) = Mechanical \<and> snd (main_cause 10 20) = 70"
proof -
  have v: "vib_temp_contrib 31 37 = 32" "vib_temp_contrib 40 20 = 40"
    "vib_temp_contrib 40 40 = 20" "vib_temp_contrib 20 40 = 40" "vib_temp_contrib 10 20 = 70"
    by (simp_all add: vib_temp_contrib_def)
  have a: "fst (main_cause 31 37) = RateOfDegradation \<and> snd (main_cause 31 37) = 37"
    using main_cause_largest_share [of 31 37] by (simp add: v)
  have b: "fst (main_cause 40 20) = Corrosion \<and> snd (main_cause 40 20) = 40"
    using main_cause_largest_share [of 40 20] by (simp add: v)
  have c: "fst (main_cause 40 40) = Corrosion \<and> snd (main_cause 40 40) = 40"
    using main_cause_largest_share [of 40 40] by (simp add: v)
  have d: "fst (main_cause 20 40) = Mechanical \<and> snd (main_cause 20 40) = 40"
    using main_cause_largest_share [of 20 40] by (simp add: v)
  have e: "fst (main_cause 10 20) = Mechanical \<and> snd (main_cause 10 20) = 70"
    using main_cause_largest_share [of 10 20] by (simp add: v)
  show ?thesis using a b c d e by simp
qed

text \<open>
  The rule of lines 136-141, which words the recommendation, is a different one: it
  knows two factors only and looks at the corrosion share and the vibration. On the
  shares 31 and 37 it names vibration and temperature, where the main cause is the
  rate of degradation.
\<close>

lemma dominant_factor_is_another_rule:
  "dominant_factor 31 (lit 7) = VibrationAndTemperature \<and>
   main_cause 31 37 = (RateOfDegradation, 37)"
  by (simp add: dominant_factor_def main_cause_def vib_temp_contrib_def Let_def)

subsection \<open>C8: the subordinate alerts\<close>

text \<open>
  C8: \<^verbatim>\<open>explain_risk\<close> lists an alert for a factor exactly when the factor crosses its
  threshold: flow rate below 0.7 (under-flow) or above 1.1 (over-flow), lubrication
  health below 0.4, stress above 0.6, remaining life below 0.3. Every alert carries the
  value that triggered it. The thresholds are those of the augmenter: the augmenter adds
  the term of a factor exactly when the alert of the factor is listed; a factor whose
  threshold is not crossed adds nothing to the points, whatever the other factors are;
  and a factor that is a float adds points of its own, the other factors being
  harmless, exactly when its threshold is crossed. When no threshold is crossed the
  report holds the note that there is no critical remark, and otherwise the list of
  alerts.
\<close>

theorem alerts_iff_thresholds:
  "(LowFlowRate x \<in> set (messages flow_rate lube_health stress_in rul_in))
     = (x = flow_rate \<and> flt flow_rate (lit (7 / 10))) \<and>
   (HighFlowRate x \<in> set (messages flow_rate lube_health stress_in rul_in))
     = (x = flow_rate \<and> flt (lit (11 / 10)) flow_rate) \<and>
   (LowLubeHealth x \<in> set (messages flow_rate lube_health stress_in rul_in))
     = (x = lube_health \<and> flt lube_health (lit (4 / 10))) \<and>
   (HighStress x \<in> set (messages flow_rate lube_health stress_in rul_in))
     = (x = stress_in \<and> flt (lit (6 / 10)) stress_in) \<and>
   (LowRUL x \<in> set (messages flow_rate lube_health stress_in rul_in))
     = (x = rul_in \<and> flt rul_in (lit (3 / 10))) \<and>
   extra_risk_points tn vn flow_rate lube_health stress_in rul_in
     = points_by_alerts tn vn flow_rate lube_health stress_in rul_in \<and>
   (extra_risk_points tn vn flow_rate lube_health stress_in rul_in
      \<noteq> extra_risk_points tn vn (Fin 1) lube_health stress_in rul_in
    \<longrightarrow> flt flow_rate (lit (7 / 10)) \<or> flt (lit (11 / 10)) flow_rate) \<and>
   (extra_risk_points tn vn flow_rate lube_health stress_in rul_in
      \<noteq> extra_risk_points tn vn flow_rate (Fin 1) stress_in rul_in
    \<longrightarrow> flt lube_health (lit (4 / 10))) \<and>
   (extra_risk_points tn vn flow_rate lube_health stress_in rul_in
      \<noteq> extra_risk_points tn vn flow_rate lube_health (Fin 0) rul_in
    \<longrightarrow> flt (lit (6 / 10)) stress_in) \<and>
   (extra_risk_points tn vn flow_rate lube_health stress_in rul_in
      \<noteq> extra_risk_points tn vn flow_rate lube_health stress_in (Fin 1)
    \<longrightarrow> flt rul_in (lit (3 / 10))) \<and>
   (is_f64 flow_rate \<longrightarrow>
    (flt flow_rate (lit (7 / 10)) \<or> flt (lit (11 / 10)) flow_rate)
      = (extra_risk_points (Fin 0) (Fin 0) flow_rate (Fin 1) (Fin 0) (Fin 1) \<noteq> Fin 0)) \<and>
   (is_f64 lube_health \<longrightarrow>
    flt lube_health (lit (4 / 10))
      = (extra_risk_points (Fin 0) (Fin 0) (Fin 1) lube_health (Fin 0) (Fin 1) \<noteq> Fin 0)) \<and>
   (is_f64 stress_in \<longrightarrow>
    flt (lit (6 / 10)) stress_in
      = (extra_risk_points (Fin 0) (Fin 0) (Fin 1) (Fin 1) stress_in (Fin 1) \<noteq> Fin 0)) \<and>
   (is_f64 rul_in \<longrightarrow>
    flt rul_in (lit (3 / 10))
      = (extra_risk_points (Fin 0) (Fin 0) (Fin 1) (Fin 1) (Fin 0) rul_in \<noteq> Fin 0)) \<and>
   (rep_sub_causes (explain_risk risk_index corr_contrib rate_contrib vibration_in
        flow_rate lube_health stress_in rul_in) = NoCriticalNotes)
     = (\<not> flt flow_rate (lit (7 / 10)) \<and> \<not> flt (lit (11 / 10)) flow_rate \<and>
        \<not> flt lube_health (lit (4 / 10)) \<and> \<not> flt (lit (6 / 10)) stress_in \<and>
        \<not> flt rul_in (lit (3 / 10))) \<and>
   (rep_sub_causes (explain_risk risk_index corr_contrib rate_contrib vibration_in
        flow_rate lube_health stress_in rul_in)
      = Items (messages flow_rate lube_health stress_in rul_in))
     = (flt flow_rate (lit (7 / 10)) \<or> flt (lit (11 / 10)) flow_rate \<or>
        flt lube_health (lit (4 / 10)) \<or> flt (lit (6 / 10)) stress_in \<or>
        flt rul_in (lit (3 / 10)))"
proof -
  note m = messages_mem [of _ flow_rate lube_health stress_in rul_in]
  have a: "extra_risk_points tn vn flow_rate lube_health stress_in rul_in
     = points_by_alerts tn vn flow_rate lube_health stress_in rul_in"
    by (rule extra_risk_points_by_alerts)
  have u1: "extra_risk_points tn vn flow_rate lube_health stress_in rul_in
      \<noteq> extra_risk_points tn vn (Fin 1) lube_health stress_in rul_in
    \<longrightarrow> flt flow_rate (lit (7 / 10)) \<or> flt (lit (11 / 10)) flow_rate"
    using uncrossed_threshold_adds_nothing(1)
      [of flow_rate tn vn lube_health stress_in rul_in] by blast
  have u2: "extra_risk_points tn vn flow_rate lube_health stress_in rul_in
      \<noteq> extra_risk_points tn vn flow_rate (Fin 1) stress_in rul_in
    \<longrightarrow> flt lube_health (lit (4 / 10))"
    using uncrossed_threshold_adds_nothing(2)
      [of lube_health tn vn flow_rate stress_in rul_in] by blast
  have u3: "extra_risk_points tn vn flow_rate lube_health stress_in rul_in
      \<noteq> extra_risk_points tn vn flow_rate lube_health (Fin 0) rul_in
    \<longrightarrow> flt (lit (6 / 10)) stress_in"
    using uncrossed_threshold_adds_nothing(3)
      [of stress_in tn vn flow_rate lube_health rul_in] by blast
  have u4: "extra_risk_points tn vn flow_rate lube_health stress_in rul_in
      \<noteq> extra_risk_points tn vn flow_rate lube_health stress_in (Fin 1)
    \<longrightarrow> flt rul_in (lit (3 / 10))"
    using uncrossed_threshold_adds_nothing(4)
      [of rul_in tn vn flow_rate lube_health stress_in] by blast
  note f = factor_alone(1) [of flow_rate] factor_alone(2) [of lube_health]
    factor_alone(3) [of stress_in] factor_alone(4) [of rul_in]
  note r = explain_risk_sub_causes [of risk_index corr_contrib rate_contrib vibration_in
      flow_rate lube_health stress_in rul_in]
  note n = messages_empty [of flow_rate lube_health stress_in rul_in]
  have r1: "(rep_sub_causes (explain_risk risk_index corr_contrib rate_contrib vibration_in
        flow_rate lube_health stress_in rul_in) = NoCriticalNotes)
     = (\<not> flt flow_rate (lit (7 / 10)) \<and> \<not> flt (lit (11 / 10)) flow_rate \<and>
        \<not> flt lube_health (lit (4 / 10)) \<and> \<not> flt (lit (6 / 10)) stress_in \<and>
        \<not> flt rul_in (lit (3 / 10)))"
    unfolding r(1) n by (rule refl)
  have r2: "(rep_sub_causes (explain_risk risk_index corr_contrib rate_contrib vibration_in
        flow_rate lube_health stress_in rul_in)
      = Items (messages flow_rate lube_health stress_in rul_in))
     = (flt flow_rate (lit (7 / 10)) \<or> flt (lit (11 / 10)) flow_rate \<or>
        flt lube_health (lit (4 / 10)) \<or> flt (lit (6 / 10)) stress_in \<or>
        flt rul_in (lit (3 / 10)))"
    unfolding r(2) n by blast
  show ?thesis
    by (intro conjI impI m a u1 [rule_format] u2 [rule_format] u3 [rule_format]
        u4 [rule_format] f r1 r2)
qed

text \<open>
  The two lubrication scenarios of the specification: lubrication health 0.1 gives the
  one alert, which carries 0.1, and raises the index of the scenario from 35 to 65;
  lubrication health 0.8 gives the note.
\<close>

theorem alerts_iff_thresholds_witness:
  "LowLubeHealth (lit (1 / 10)) \<in> set (messages (lit 1) (lit (1 / 10)) (lit (4 / 10))
       (lit (7 / 10))) \<and>
   LowLubeHealth (lit (1 / 10)) \<notin> set (messages (lit 1) (lit (8 / 10)) (lit (4 / 10))
       (lit (7 / 10))) \<and>
   HighStress (lit (9 / 10)) \<in> set (messages (lit 1) (lit (8 / 10)) (lit (9 / 10))
       (lit (7 / 10))) \<and>
   HighStress (lit (5 / 10)) \<notin> set (messages (lit 1) (lit (8 / 10)) (lit (5 / 10))
       (lit (7 / 10))) \<and>
   rep_sub_causes (explain_risk 35 31 37 (lit 7) (lit 1) (lit (8 / 10)) (lit (4 / 10))
       (lit (7 / 10))) = NoCriticalNotes \<and>
   rep_sub_causes (explain_risk 65 31 37 (lit 7) (lit 1) (lit (1 / 10)) (lit (4 / 10))
       (lit (7 / 10)))
     = Items (messages (lit 1) (lit (1 / 10)) (lit (4 / 10)) (lit (7 / 10))) \<and>
   messages (lit 1) (lit (1 / 10)) (lit (4 / 10)) (lit (7 / 10))
     = [LowLubeHealth (lit (1 / 10))] \<and>
   is_f64 (lit (1 / 10)) \<and>
   extra_risk_points (Fin 0) (Fin 0) (Fin 1) (lit (1 / 10)) (Fin 0) (Fin 1) \<noteq> Fin 0 \<and>
   extra_risk_points (Fin 0) (Fin 0) (Fin 1) (lit (8 / 10)) (Fin 0) (Fin 1) = Fin 0 \<and>
   calculate_aris_data (Some (fixed_classifier (1 / 10))) (lit 7) (lit 55) (lit (2 / 10))
       (lit (15 / 100)) (lit 1) (lit (1 / 10)) (lit (4 / 10)) (lit (7 / 10))
     = Inr (65, 31, 37)"
proof -
  have t: "flt (lit (1 / 10)) (lit (4 / 10))" "\<not> flt (lit (8 / 10)) (lit (4 / 10))"
    "\<not> flt (lit (6 / 10)) (lit (4 / 10))" "flt (lit (6 / 10)) (lit (9 / 10))"
    "\<not> flt (lit (6 / 10)) (lit (5 / 10))" "\<not> flt (lit (7 / 10)) (lit (3 / 10))"
    "\<not> flt (lit 1) (lit (7 / 10))" "\<not> flt (lit (11 / 10)) (lit 1)"
    by (simp_all add: f64_eval)
  have i: "is_f64 (lit (1 / 10))" "is_f64 (lit (8 / 10))" by simp_all
  have a: "LowLubeHealth (lit (1 / 10)) \<in> set (messages (lit 1) (lit (1 / 10)) (lit (4 / 10))
         (lit (7 / 10))) \<and>
      rep_sub_causes (explain_risk 65 31 37 (lit 7) (lit 1) (lit (1 / 10)) (lit (4 / 10))
         (lit (7 / 10)))
        = Items (messages (lit 1) (lit (1 / 10)) (lit (4 / 10)) (lit (7 / 10))) \<and>
      extra_risk_points (Fin 0) (Fin 0) (Fin 1) (lit (1 / 10)) (Fin 0) (Fin 1) \<noteq> Fin 0"
    using alerts_iff_thresholds [of "lit (1 / 10)" "lit 1" "lit (1 / 10)" "lit (4 / 10)"
        "lit (7 / 10)" "Fin 0" "Fin 0" 65 31 37 "lit 7"] t i
    by simp
  have b: "LowLubeHealth (lit (1 / 10)) \<notin> set (messages (lit 1) (lit (8 / 10)) (lit (4 / 10))
         (lit (7 / 10))) \<and>
      rep_sub_causes (explain_risk 35 31 37 (lit 7) (lit 1) (lit (8 / 10)) (lit (4 / 10))
         (lit (7 / 10))) = NoCriticalNotes \<and>
      extra_risk_points (Fin 0) (Fin 0) (Fin 1) (lit (8 / 10)) (Fin 0) (Fin 1) = Fin 0"
    using alerts_iff_thresholds [of "lit (1 / 10)" "lit 1" "lit (8 / 10)" "lit (4 / 10)"
        "lit (7 / 10)" "Fin 0" "Fin 0" 35 31 37 "lit 7"] t i
    by simp
  have c: "HighStress (lit (9 / 10)) \<in> set (messages (lit 1) (lit (8 / 10)) (lit (9 / 10))
         (lit (7 / 10)))"
    using alerts_iff_thresholds [of "lit (9 / 10)" "lit 1" "lit (8 / 10)" "lit (9 / 10)"
        "lit (7 / 10)" "Fin 0" "Fin 0" 35 31 37 "lit 7"] t
    by simp
  have d: "HighStress (lit (5 / 10)) \<notin> set (messages (lit 1) (lit (8 / 10)) (lit (5 / 10))
         (lit (7 / 10)))"
    using alerts_iff_thresholds [of "lit (5 / 10)" "lit 1" "lit (8 / 10)" "lit (5 / 10)"
        "lit (7 / 10)" "Fin 0" "Fin 0" 35 31 37 "lit 7"] t
    by simp
  have m: "messages (lit 1) (lit (1 / 10)) (lit (4 / 10)) (lit (7 / 10))
     = [LowLubeHealth (lit (1 / 10))]"
    using t by (simp add: messages_def)
  have e: "calculate_aris_data (Some (fixed_classifier (1 / 10))) (lit 7) (lit 55)
       (lit (2 / 10)) (lit (15 / 100)) (lit 1) (lit (1 / 10)) (lit (4 / 10)) (lit (7 / 10))
     = Inr (65, 31, 37)"
    by (simp add: f64_eval aris_eval)
  show ?thesis using a b c d m i e by simp
qed

text \<open>
  A term that is added need not change the float sum. At temperature 85 the points are
  105; a lubrication health of 0.39999999999999997, the float next below 0.4, is listed
  as an alert and adds a term of about 5.6e-15, which the sum rounds away.
\<close>

lemma added_term_can_be_rounded_away:
  "is_f64 (Fin (7205759403792793 / 18014398509481984)) \<and>
   messages (lit 1) (Fin (7205759403792793 / 18014398509481984)) (lit (4 / 10)) (lit (7 / 10))
     = [LowLubeHealth (Fin (7205759403792793 / 18014398509481984))] \<and>
   extra_risk_points (fdiv (fsub (lit 85) (Fin 30)) (Fin 55))
       (fdiv (fsub (lit 1) (Fin 1)) (Fin 24)) (lit 1)
       (Fin (7205759403792793 / 18014398509481984)) (lit (4 / 10)) (lit (7 / 10)) = Fin 105 \<and>
   extra_risk_points (fdiv (fsub (lit 85) (Fin 30)) (Fin 55))
       (fdiv (fsub (lit 1) (Fin 1)) (Fin 24)) (lit 1)
       (Fin 1) (lit (4 / 10)) (lit (7 / 10)) = Fin 105"
  by (simp add: is_f64_def representable_def messages_def extra_risk_points_def f64_eval)

subsection \<open>C10: exceptions that reach the caller\<close>




end
